theory Spec2Isabelle
  imports Main
begin

section \<open>Exceptions\<close>

text \<open>
  The exceptions that can leave the two scripts. A function that may raise returns
  \<open>error + 'a\<close>, with \<open>Inl\<close> for the exception.
\<close>

datatype error = SyntaxError | IndexError | AttributeError | UnicodeDecodeError

section \<open>Text\<close>

text \<open>
  A Python \<open>str\<close> is modelled as a \<open>string\<close>: a character is a code point below 256, so
  a text with a code point from 256 on is not a value of this type. A value of type
  \<open>bytes\<close> is a list of characters too, each one byte.
\<close>

type_synonym bytes = "char list"

abbreviation LF :: char where "LF \<equiv> CHR 0x0A"
abbreviation CR :: char where "CR \<equiv> CHR 0x0D"
abbreviation TAB :: char where "TAB \<equiv> CHR 0x09"
abbreviation SP :: char where "SP \<equiv> CHR 0x20"

text \<open>\<open>xs[i]\<close>: a negative index counts from the end, an index out of range raises.\<close>

definition py_index :: "'a list \<Rightarrow> int \<Rightarrow> error + 'a" where
  "py_index xs i =
     (let n = int (length xs); j = (if i < 0 then i + n else i)
      in if 0 \<le> j \<and> j < n then Inr (xs ! nat j) else Inl IndexError)"

text \<open>\<open>xs[a:b]\<close>: a bound may be missing, a negative bound counts from the end, and
  every bound is clamped to the list.\<close>

definition slice_bound :: "nat \<Rightarrow> int \<Rightarrow> nat" where
  "slice_bound n i = (if i < 0 then nat (max (i + int n) 0) else min (nat i) n)"

definition py_slice :: "'a list \<Rightarrow> int option \<Rightarrow> int option \<Rightarrow> 'a list" where
  "py_slice xs a b =
     (let n = length xs;
          lo = (case a of None \<Rightarrow> 0 | Some i \<Rightarrow> slice_bound n i);
          hi = (case b of None \<Rightarrow> n | Some j \<Rightarrow> slice_bound n j)
      in take (hi - lo) (drop lo xs))"

text \<open>\<open>x or ""\<close> on an optional string: \<open>None\<close> and the empty string are both falsy.\<close>

definition or_empty :: "string option \<Rightarrow> string" where
  "or_empty x = (case x of None \<Rightarrow> [] | Some s \<Rightarrow> if s = [] then [] else s)"

text \<open>
  \<open>str.encode()\<close>, the UTF-8 encoding: a code point below 128 is one byte, and a code point
  from 128 to 255 is the two bytes \<open>0xC0 + n div 64\<close> and \<open>0x80 + n mod 64\<close>.
\<close>

definition encode_char :: "char \<Rightarrow> bytes" where
  "encode_char c =
     (let n = (of_char c :: nat)
      in if n < 128 then [c] else [char_of (192 + n div 64), char_of (128 + n mod 64)])"

definition encode :: "string \<Rightarrow> bytes" where
  "encode s = concat (map encode_char s)"

text \<open>
  \<open>bytes.decode()\<close>, strict UTF-8 decoding. A byte below 128 is a character; a lead byte
  \<open>0xC2\<close> or \<open>0xC3\<close> with a continuation byte (128 to 191) is a character from 128 to 255;
  a continuation byte with no lead byte, a lead byte with no continuation byte, and the
  bytes \<open>0xC0\<close> and \<open>0xC1\<close> are errors. The other lead bytes start code points from 256
  on; they do not occur in the encoding of a text of this model, and are errors here.
\<close>

fun decode :: "bytes \<Rightarrow> error + string" where
  "decode [] = Inr []"
| "decode [b] = (if (of_char b :: nat) < 128 then Inr [b] else Inl UnicodeDecodeError)"
| "decode (b # c # rest) =
     (let n = (of_char b :: nat); m = (of_char c :: nat)
      in if n < 128 then
           (case decode (c # rest) of Inl e \<Rightarrow> Inl e | Inr s \<Rightarrow> Inr (b # s))
         else if (n = 194 \<or> n = 195) \<and> 128 \<le> m \<and> m < 192 then
           (case decode rest of
              Inl e \<Rightarrow> Inl e
            | Inr s \<Rightarrow> Inr (char_of ((n - 192) * 64 + (m - 128)) # s))
         else Inl UnicodeDecodeError)"

section \<open>The syntax tree of module \<open>ast\<close>\<close>

text \<open>
  Only the attributes the scripts read are kept. A constant is the value of a literal;
  the digits of a float or complex literal are kept as text, since no code looks at them.
\<close>

datatype constant_value =
    CNone
  | CBool bool
  | CInt int
  | CFloat string
  | CComplex string
  | CStr string
  | CBytes string
  | CEllipsis

text \<open>
  Expressions. The kinds that have an attribute \<open>value\<close> or \<open>id\<close> are kept apart, since the
  scripts read these two attributes; \<open>Call\<close> and \<open>JoinedStr\<close> have neither, and \<open>OtherExpr\<close>
  stands for every other kind that has neither (\<open>BinOp\<close>, \<open>Compare\<close>, \<open>Lambda\<close>, \<open>List\<close>,
  \<open>Dict\<close>, ...), with the name of its class.
\<close>

datatype expr =
    Constant constant_value
  | Name string
  | Attribute expr string
  | Subscript expr expr
  | Starred expr
  | Call expr "expr list"
  | Await expr
  | Yield "expr option"
  | YieldFrom expr
  | NamedExpr expr expr
  | FormattedValue expr
  | DictComp expr expr
  | JoinedStr "expr list"
  | OtherExpr string

text \<open>The position attributes of a node; the two end positions are optional in the
  tree's grammar.\<close>

record location =
  lineno :: int
  col_offset :: int
  end_lineno :: "int option"
  end_col_offset :: "int option"

text \<open>
  Statements. \<open>OtherStmt\<close> stands for every other kind (\<open>Import\<close>, \<open>For\<close>, \<open>While\<close>,
  \<open>With\<close>, \<open>Try\<close>, ...), with the name of its class and the statements nested in it.
\<close>

datatype stmt =
    is_FunctionDef: FunctionDef (name: string) (body: "stmt list") (loc: location)
  | is_AsyncFunctionDef: AsyncFunctionDef (name: string) (body: "stmt list") (loc: location)
  | is_ClassDef: ClassDef (name: string) (bases: "expr list") (body: "stmt list")
      (loc: location)
  | is_Expr: Expr expr
  | is_Assign: Assign "expr list" expr
  | is_Return: Return "expr option"
  | is_Pass: Pass
  | is_If: If expr "stmt list" "stmt list"
  | is_OtherStmt: OtherStmt string "stmt list"

datatype ast_mod = Module "stmt list"

text \<open>Reading attribute \<open>id\<close> of an expression node: only \<open>Name\<close> has it.\<close>

fun expr_id :: "expr \<Rightarrow> error + string" where
  "expr_id (Name ident) = Inr ident"
| "expr_id _ = Inl AttributeError"

text \<open>
  Reading attribute \<open>value\<close> of an expression node. The result is a constant's value, a
  node, or \<open>None\<close> (a bare \<open>yield\<close>).
\<close>

datatype attr_value = AConst constant_value | ANode expr

fun expr_value :: "expr \<Rightarrow> error + attr_value" where
  "expr_value (Constant c) = Inr (AConst c)"
| "expr_value (Attribute e _) = Inr (ANode e)"
| "expr_value (Subscript e _) = Inr (ANode e)"
| "expr_value (Starred e) = Inr (ANode e)"
| "expr_value (Await e) = Inr (ANode e)"
| "expr_value (Yield None) = Inr (AConst CNone)"
| "expr_value (Yield (Some e)) = Inr (ANode e)"
| "expr_value (YieldFrom e) = Inr (ANode e)"
| "expr_value (NamedExpr _ e) = Inr (ANode e)"
| "expr_value (FormattedValue e) = Inr (ANode e)"
| "expr_value (DictComp _ e) = Inr (ANode e)"
| "expr_value _ = Inl AttributeError"

section \<open>Library functions the scripts call\<close>

text \<open>
  The scripts call \<open>ast.get_docstring\<close> and \<open>ast.get_source_segment\<close>, and the first of
  these calls \<open>inspect.cleandoc\<close>. They are translated from the modules \<open>ast\<close> and
  \<open>inspect\<close> of CPython 3.11. The parser \<open>ast.parse\<close> is not translated: the scripts take
  it as an argument.
\<close>

subsection \<open>\<open>inspect.cleandoc\<close>\<close>

text \<open>\<open>str.expandtabs()\<close> with the default tab size 8; the column starts again after a
  line feed or a carriage return.\<close>

fun expandtabs_from :: "nat \<Rightarrow> string \<Rightarrow> string" where
  "expandtabs_from j [] = []"
| "expandtabs_from j (c # cs) =
     (if c = TAB then
        (let incr = 8 - j mod 8 in replicate incr SP @ expandtabs_from (j + incr) cs)
      else c # expandtabs_from (if c = LF \<or> c = CR then 0 else j + 1) cs)"

definition expandtabs :: "string \<Rightarrow> string" where
  "expandtabs s = expandtabs_from 0 s"

text \<open>\<open>s.split('\n')\<close>: the pieces between line feeds, always at least one.\<close>

fun split_lf :: "string \<Rightarrow> string list" where
  "split_lf [] = [[]]"
| "split_lf (c # cs) =
     (if c = LF then [] # split_lf cs
      else (case split_lf cs of [] \<Rightarrow> [[c]] | l # ls \<Rightarrow> (c # l) # ls))"

text \<open>\<open>'\n'.join(lines)\<close>.\<close>

fun join_lf :: "string list \<Rightarrow> string" where
  "join_lf [] = []"
| "join_lf [l] = l"
| "join_lf (l # ls) = l @ LF # join_lf ls"

text \<open>\<open>str.lstrip()\<close> removes leading whitespace: the whitespace characters below 256
  are 9 to 13, 28 to 31, the space, \<open>0x85\<close> (next line) and \<open>0xA0\<close> (no-break space).\<close>

definition is_space :: "char \<Rightarrow> bool" where
  "is_space c = (c \<in> {CHR 0x09, CHR 0x0A, CHR 0x0B, CHR 0x0C, CHR 0x0D,
                      CHR 0x1C, CHR 0x1D, CHR 0x1E, CHR 0x1F, CHR 0x20,
                      CHR 0x85, CHR 0xA0})"

definition lstrip :: "string \<Rightarrow> string" where
  "lstrip s = dropWhile is_space s"

text \<open>The loop that finds the least indentation of the non-blank lines after the first;
  \<open>None\<close> is the start value \<open>sys.maxsize\<close>.\<close>

fun find_margin :: "nat option \<Rightarrow> string list \<Rightarrow> nat option" where
  "find_margin margin [] = margin"
| "find_margin margin (line # rest) =
     (let content = length (lstrip line) in
      if content \<noteq> 0 then
        (let indent = length line - content
         in find_margin (Some (case margin of None \<Rightarrow> indent | Some m \<Rightarrow> min m indent)) rest)
      else find_margin margin rest)"

definition cleandoc :: "string \<Rightarrow> string" where
  "cleandoc doc =
     (let lines = split_lf (expandtabs doc);
          margin = find_margin None (drop 1 lines);
          lines = (case lines of [] \<Rightarrow> [] | l # ls \<Rightarrow> lstrip l # ls);
          lines = (case margin of
                     None \<Rightarrow> lines
                   | Some m \<Rightarrow> (case lines of [] \<Rightarrow> [] | l # ls \<Rightarrow> l # map (drop m) ls));
          lines = rev (dropWhile (\<lambda>l. l = []) (rev lines));
          lines = dropWhile (\<lambda>l. l = []) lines
      in join_lf lines)"

subsection \<open>\<open>ast.get_docstring\<close>\<close>

text \<open>
  \<open>get_docstring(node, clean)\<close> raises \<open>TypeError\<close> on a node that is not a module, a
  function or a class; the scripts call it on these three kinds only. It reads the node's
  \<open>body\<close> only, which is the argument here.
\<close>

fun get_docstring :: "stmt list \<Rightarrow> bool \<Rightarrow> string option" where
  "get_docstring (Expr (Constant (CStr text)) # _) clean =
     Some (if clean then cleandoc text else text)"
| "get_docstring _ clean = None"

subsection \<open>\<open>ast.get_source_segment\<close>\<close>

text \<open>\<open>_splitlines_no_ff\<close>: the lines of the source, each with its line end; a line ends
  at \<open>\n\<close>, \<open>\r\<close> or \<open>\r\n\<close>. The first argument is the rest of the source from \<open>idx\<close>, the
  second is \<open>next_line\<close>.\<close>

fun splitlines_loop :: "string \<Rightarrow> string \<Rightarrow> string list" where
  "splitlines_loop [] next_line = (if next_line \<noteq> [] then [next_line] else [])"
| "splitlines_loop (c # rest) next_line =
     (if c = CR \<and> rest \<noteq> [] \<and> hd rest = LF then
        (next_line @ [c, LF]) # splitlines_loop (tl rest) []
      else if c = CR \<or> c = LF then (next_line @ [c]) # splitlines_loop rest []
      else splitlines_loop rest (next_line @ [c]))"

definition splitlines_no_ff :: "string \<Rightarrow> string list" where
  "splitlines_no_ff source = splitlines_loop source []"

text \<open>\<open>get_source_segment(source, node)\<close> with \<open>padded=False\<close>; it reads the node's
  position attributes only. A line is encoded, sliced by byte offsets and decoded.\<close>

definition get_source_segment :: "string \<Rightarrow> location \<Rightarrow> error + string option" where
  "get_source_segment source node =
     (case (end_lineno node, end_col_offset node) of
        (Some node_end_lineno, Some node_end_col_offset) \<Rightarrow>
          (let lineno = lineno node - 1;
               end_lineno = node_end_lineno - 1;
               col_offset = col_offset node;
               end_col_offset = node_end_col_offset;
               lines = splitlines_no_ff source
           in if end_lineno = lineno then
                (case py_index lines lineno of
                   Inl e \<Rightarrow> Inl e
                 | Inr l \<Rightarrow>
                     (case decode (py_slice (encode l) (Some col_offset) (Some end_col_offset)) of
                        Inl e \<Rightarrow> Inl e
                      | Inr segment \<Rightarrow> Inr (Some segment)))
              else
                (case py_index lines lineno of
                   Inl e \<Rightarrow> Inl e
                 | Inr l1 \<Rightarrow>
                     (case decode (py_slice (encode l1) (Some col_offset) None) of
                        Inl e \<Rightarrow> Inl e
                      | Inr first_part \<Rightarrow>
                          (case py_index lines end_lineno of
                             Inl e \<Rightarrow> Inl e
                           | Inr l2 \<Rightarrow>
                               (case decode (py_slice (encode l2) None (Some end_col_offset)) of
                                  Inl e \<Rightarrow> Inl e
                                | Inr last_part \<Rightarrow>
                                    (let lines =
                                           py_slice lines (Some (lineno + 1)) (Some end_lineno)
                                     in Inr (Some (concat (first_part # lines @ [last_part])))))))))
      | _ \<Rightarrow> Inr None)"

section \<open>The records of the scripts\<close>

text \<open>
  The two scripts declare the same \<open>FunctionInfo\<close> and \<open>ClassInfo\<close>. A field holds what the
  code stores in it: \<open>content\<close> is the optional string \<open>get_source_segment\<close> returns.
\<close>

record FunctionInfo =
  name :: string
  docstring :: "string option"
  content :: "string option"

record ClassInfo =
  name :: string
  docstring :: "string option"
  bases :: "string list"
  methods :: "FunctionInfo list"

text \<open>\<open>ModuleInfo\<close> of \<open>extract_definitions.py\<close>.\<close>

record ModuleInfo =
  docstring :: "string option"
  classes :: "ClassInfo list"
  "functions" :: "FunctionInfo list"

text \<open>\<open>ModuleInfo\<close> of \<open>extract_code_entities.py\<close>: the first field is named \<open>docs\<close>, and
  it holds whatever \<open>stmts[0].value.value\<close> is.\<close>

record ModuleInfo_entities =
  docs :: attr_value
  classes :: "ClassInfo list"
  "functions" :: "FunctionInfo list"

text \<open>A list comprehension whose element expression may raise: the elements in order,
  or the first exception.\<close>

fun collect :: "('a \<Rightarrow> error + 'b) \<Rightarrow> 'a list \<Rightarrow> error + 'b list" where
  "collect f [] = Inr []"
| "collect f (x # xs) =
     (case f x of
        Inl e \<Rightarrow> Inl e
      | Inr y \<Rightarrow> (case collect f xs of Inl e \<Rightarrow> Inl e | Inr ys \<Rightarrow> Inr (y # ys)))"

section \<open>\<open>extract_definitions.py\<close>\<close>

definition extract_function_info :: "stmt \<Rightarrow> string \<Rightarrow> error + FunctionInfo" where
  "extract_function_info node file_content =
     (case get_source_segment file_content (loc node) of
        Inl e \<Rightarrow> Inl e
      | Inr segment \<Rightarrow>
          Inr \<lparr>FunctionInfo.name = stmt.name node,
               FunctionInfo.docstring = get_docstring (body node) True,
               content = Some (or_empty segment)\<rparr>)"

definition extract_class_info :: "stmt \<Rightarrow> string \<Rightarrow> error + ClassInfo" where
  "extract_class_info node file_content =
     (case collect (\<lambda>f. extract_function_info f file_content)
             (filter is_FunctionDef (body node)) of
        Inl e \<Rightarrow> Inl e
      | Inr method_infos \<Rightarrow>
          (case collect expr_id (stmt.bases node) of
             Inl e \<Rightarrow> Inl e
           | Inr base_ids \<Rightarrow>
               Inr \<lparr>ClassInfo.name = stmt.name node,
                    ClassInfo.docstring = get_docstring (body node) True,
                    bases = base_ids,
                    methods = method_infos\<rparr>))"

text \<open>\<open>ast.parse\<close> is the first argument: it returns the tree or raises.\<close>

definition get_module_info :: "(string \<Rightarrow> error + ast_mod) \<Rightarrow> string \<Rightarrow> error + ModuleInfo" where
  "get_module_info parse file_content =
     (case parse file_content of
        Inl e \<Rightarrow> Inl e
      | Inr (Module tree_body) \<Rightarrow>
          (let module_docstring = get_docstring tree_body True in
           case collect (\<lambda>node. extract_function_info node file_content)
                  (filter is_FunctionDef tree_body) of
             Inl e \<Rightarrow> Inl e
           | Inr function_infos \<Rightarrow>
               (case collect (\<lambda>node. extract_class_info node file_content)
                       (filter is_ClassDef tree_body) of
                  Inl e \<Rightarrow> Inl e
                | Inr class_infos \<Rightarrow>
                    Inr \<lparr>ModuleInfo.docstring = module_docstring,
                         ModuleInfo.classes = class_infos,
                         ModuleInfo.functions = function_infos\<rparr>)))"

section \<open>\<open>extract_code_entities.py\<close>\<close>

definition get_function_info :: "stmt \<Rightarrow> string \<Rightarrow> error + FunctionInfo" where
  "get_function_info node file_content =
     (let fname = stmt.name node;
          fdoc = get_docstring (body node) True
      in case get_source_segment file_content (loc node) of
           Inl e \<Rightarrow> Inl e
         | Inr fcontent \<Rightarrow>
             Inr \<lparr>FunctionInfo.name = fname, FunctionInfo.docstring = fdoc,
                  content = fcontent\<rparr>)"

text \<open>The loop \<open>for f in functions: result['functions'].append(...)\<close>.\<close>

fun append_functions ::
  "stmt list \<Rightarrow> string \<Rightarrow> ModuleInfo_entities \<Rightarrow> error + ModuleInfo_entities" where
  "append_functions [] file_content result = Inr result"
| "append_functions (f # fs) file_content result =
     (case get_function_info f file_content of
        Inl e \<Rightarrow> Inl e
      | Inr info \<Rightarrow>
          append_functions fs file_content
            (result\<lparr>ModuleInfo_entities.functions :=
                      ModuleInfo_entities.functions result @ [info]\<rparr>))"

text \<open>The loop \<open>for f in methods: result['classes'][-1]['methods'].append(...)\<close>; the
  last class is looked up before the function's information is computed.\<close>

fun append_methods ::
  "stmt list \<Rightarrow> string \<Rightarrow> ModuleInfo_entities \<Rightarrow> error + ModuleInfo_entities" where
  "append_methods [] file_content result = Inr result"
| "append_methods (f # fs) file_content result =
     (case py_index (ModuleInfo_entities.classes result) (- 1) of
        Inl e \<Rightarrow> Inl e
      | Inr c \<Rightarrow>
          (case get_function_info f file_content of
             Inl e \<Rightarrow> Inl e
           | Inr info \<Rightarrow>
               append_methods fs file_content
                 (result\<lparr>ModuleInfo_entities.classes :=
                           butlast (ModuleInfo_entities.classes result)
                           @ [c\<lparr>methods := methods c @ [info]\<rparr>]\<rparr>)))"

text \<open>The loop \<open>for c in classes\<close>.\<close>

fun append_classes ::
  "stmt list \<Rightarrow> string \<Rightarrow> ModuleInfo_entities \<Rightarrow> error + ModuleInfo_entities" where
  "append_classes [] file_content result = Inr result"
| "append_classes (c # cs) file_content result =
     (let cname = stmt.name c;
          cdoc = get_docstring (body c) True
      in case collect expr_id (stmt.bases c) of
           Inl e \<Rightarrow> Inl e
         | Inr cbases \<Rightarrow>
             (case append_methods (filter is_FunctionDef (body c)) file_content
                     (result\<lparr>ModuleInfo_entities.classes :=
                               ModuleInfo_entities.classes result
                               @ [\<lparr>ClassInfo.name = cname, ClassInfo.docstring = cdoc,
                                    bases = cbases, methods = []\<rparr>]\<rparr>) of
                Inl e \<Rightarrow> Inl e
              | Inr result' \<Rightarrow> append_classes cs file_content result'))"

definition get_module_info_entities ::
  "(string \<Rightarrow> error + ast_mod) \<Rightarrow> string \<Rightarrow> error + ModuleInfo_entities" where
  "get_module_info_entities parse file_content =
     (case parse file_content of
        Inl e \<Rightarrow> Inl e
      | Inr (Module stmts) \<Rightarrow>
          (case py_index stmts 0 of
             Inl e \<Rightarrow> Inl e
           | Inr first \<Rightarrow>
               (case (case first of
                        Expr first_value \<Rightarrow> expr_value first_value
                      | _ \<Rightarrow> Inr (AConst CNone)) of
                  Inl e \<Rightarrow> Inl e
                | Inr file_docstring \<Rightarrow>
                    (case append_functions (filter is_FunctionDef stmts) file_content
                            \<lparr>docs = file_docstring, ModuleInfo_entities.classes = [],
                             ModuleInfo_entities.functions = []\<rparr> of
                       Inl e \<Rightarrow> Inl e
                     | Inr result \<Rightarrow>
                         append_classes (filter is_ClassDef stmts) file_content result))))"

text \<open>
  The body of the loop over the classes in \<open>extract_code_entities.py\<close>, as a function of
  the class node: the bases are read first, the methods after.
\<close>

definition class_info_entities :: "stmt \<Rightarrow> string \<Rightarrow> error + ClassInfo" where
  "class_info_entities c file_content =
     (case collect expr_id (stmt.bases c) of
        Inl e \<Rightarrow> Inl e
      | Inr cbases \<Rightarrow>
          (case collect (\<lambda>f. get_function_info f file_content)
                  (filter is_FunctionDef (body c)) of
             Inl e \<Rightarrow> Inl e
           | Inr infos \<Rightarrow>
               Inr \<lparr>ClassInfo.name = stmt.name c,
                    ClassInfo.docstring = get_docstring (body c) True,
                    bases = cbases, methods = infos\<rparr>))"

section \<open>Notions of the specification\<close>

subsection \<open>Docstrings\<close>

text \<open>A bare string-literal expression statement, and the value of its string.\<close>

fun is_string_statement :: "stmt \<Rightarrow> bool" where
  "is_string_statement (Expr (Constant (CStr s))) = True"
| "is_string_statement _ = False"

fun string_statement_value :: "stmt \<Rightarrow> string" where
  "string_statement_value (Expr (Constant (CStr s))) = s"
| "string_statement_value _ = []"

text \<open>The rule for the docstring of a body, with the raw value of the string, and with
  the value cleaned by \<open>cleandoc\<close>.\<close>

definition raw_docstring_rule :: "stmt list \<Rightarrow> string option" where
  "raw_docstring_rule stmts =
     (if stmts \<noteq> [] \<and> is_string_statement (hd stmts)
      then Some (string_statement_value (hd stmts)) else None)"

definition docstring_rule :: "stmt list \<Rightarrow> string option" where
  "docstring_rule stmts =
     (if stmts \<noteq> [] \<and> is_string_statement (hd stmts)
      then Some (cleandoc (string_statement_value (hd stmts))) else None)"

subsection \<open>Spans\<close>

text \<open>
  Lines are counted from 1. A column is an offset in the UTF-8 encoding of its line,
  counted from 0. \<open>char_col line c\<close> is the number of characters of the line before the byte
  offset \<open>c\<close>, when a character of the line starts at this offset or the line ends there.
\<close>

fun char_col :: "string \<Rightarrow> nat \<Rightarrow> nat option" where
  "char_col line 0 = Some 0"
| "char_col [] (Suc c) = None"
| "char_col (ch # line) (Suc c) =
     (if length (encode_char ch) \<le> Suc c
      then map_option Suc (char_col line (Suc c - length (encode_char ch)))
      else None)"

text \<open>\<open>line_offset source l\<close> is the offset in the text of the first character of line
  \<open>l\<close>, and \<open>char_offset source l c\<close> is the offset in the text of the character at line \<open>l\<close>
  and column \<open>c\<close>, both counted in characters.\<close>

definition line_offset :: "string \<Rightarrow> int \<Rightarrow> nat" where
  "line_offset source l = length (concat (take (nat (l - 1)) (splitlines_no_ff source)))"

definition char_offset :: "string \<Rightarrow> int \<Rightarrow> int \<Rightarrow> nat" where
  "char_offset source l c =
     line_offset source l
     + (case char_col (splitlines_no_ff source ! nat (l - 1)) (nat c) of
          None \<Rightarrow> 0
        | Some k \<Rightarrow> k)"

definition position_in_text :: "string \<Rightarrow> int \<Rightarrow> int \<Rightarrow> bool" where
  "position_in_text source l c =
     (let lines = splitlines_no_ff source
      in 1 \<le> l \<and> l \<le> int (length lines) \<and> 0 \<le> c \<and>
         char_col (lines ! nat (l - 1)) (nat c) \<noteq> None)"

definition start_offset :: "string \<Rightarrow> location \<Rightarrow> nat" where
  "start_offset source node = char_offset source (lineno node) (col_offset node)"

definition end_offset :: "string \<Rightarrow> location \<Rightarrow> nat" where
  "end_offset source node =
     (case (end_lineno node, end_col_offset node) of
        (Some el, Some ec) \<Rightarrow> char_offset source el ec
      | _ \<Rightarrow> 0)"

text \<open>A node resolves to a valid span of the text when both its ends are recorded, both
  are positions in the text, and the start lies before the end.\<close>

definition valid_span :: "string \<Rightarrow> location \<Rightarrow> bool" where
  "valid_span source node =
     (case (end_lineno node, end_col_offset node) of
        (Some el, Some ec) \<Rightarrow>
          position_in_text source (lineno node) (col_offset node) \<and>
          position_in_text source el ec \<and>
          start_offset source node < end_offset source node
      | _ \<Rightarrow> False)"

text \<open>The substring of the text from the start of the node to its end, both counted in
  characters.\<close>

definition source_span :: "string \<Rightarrow> location \<Rightarrow> string" where
  "source_span source node =
     take (end_offset source node - start_offset source node)
       (drop (start_offset source node) source)"

text \<open>The nodes a Function Record is built from: the functions at top level, then the
  direct function children of the top-level classes.\<close>

definition function_nodes :: "stmt list \<Rightarrow> stmt list" where
  "function_nodes stmts =
     filter is_FunctionDef stmts
     @ concat (map (\<lambda>c. filter is_FunctionDef (body c)) (filter is_ClassDef stmts))"

text \<open>The Function Record of a node whose content is the span of the node.\<close>

definition function_info_of :: "string \<Rightarrow> stmt \<Rightarrow> FunctionInfo" where
  "function_info_of fc node =
     \<lparr>FunctionInfo.name = stmt.name node,
      FunctionInfo.docstring = get_docstring (body node) True,
      content = Some (source_span fc (loc node))\<rparr>"

subsection \<open>Sources on which extraction returns a record\<close>

text \<open>Every function node a record is built from resolves to a valid span.\<close>

definition resolved_spans :: "string \<Rightarrow> stmt list \<Rightarrow> bool" where
  "resolved_spans fc stmts = list_all (\<lambda>f. valid_span fc (loc f)) (function_nodes stmts)"

text \<open>Every base of every top-level class is a simple name.\<close>

fun is_Name :: "expr \<Rightarrow> bool" where
  "is_Name (Name ident) = True"
| "is_Name _ = False"

definition simple_bases :: "stmt list \<Rightarrow> bool" where
  "simple_bases stmts =
     list_all (\<lambda>c. list_all is_Name (stmt.bases c)) (filter is_ClassDef stmts)"

text \<open>The module has a first statement, and it is not an expression statement or it is
  a string literal.\<close>

definition readable_first_statement :: "stmt list \<Rightarrow> bool" where
  "readable_first_statement stmts =
     (stmts \<noteq> [] \<and> (\<not> is_Expr (hd stmts) \<or> is_string_statement (hd stmts)))"

subsection \<open>Comparing the two scripts\<close>

text \<open>An optional string as the Python value it is.\<close>

definition value_of_docstring :: "string option \<Rightarrow> attr_value" where
  "value_of_docstring d = (case d of None \<Rightarrow> AConst CNone | Some s \<Rightarrow> AConst (CStr s))"

text \<open>The two module records hold the same values; the first field is \<open>docs\<close> in one
  and \<open>docstring\<close> in the other.\<close>

definition same_record :: "ModuleInfo_entities \<Rightarrow> ModuleInfo \<Rightarrow> bool" where
  "same_record r1 r2 =
     (docs r1 = value_of_docstring (ModuleInfo.docstring r2) \<and>
      ModuleInfo_entities.classes r1 = ModuleInfo.classes r2 \<and>
      ModuleInfo_entities.functions r1 = ModuleInfo.functions r2)"

text \<open>The first statement is not an expression statement, or it is a string literal that
  \<open>cleandoc\<close> leaves as it is.\<close>

definition plain_first_statement :: "stmt list \<Rightarrow> bool" where
  "plain_first_statement stmts =
     (stmts \<noteq> [] \<and>
      (\<not> is_Expr (hd stmts) \<or>
       is_string_statement (hd stmts) \<and>
       cleandoc (string_statement_value (hd stmts)) = string_statement_value (hd stmts)))"

subsection \<open>Asynchronous functions\<close>

text \<open>Every \<open>async def\<close> at top level or directly in a top-level class body replaced by
  \<open>pass\<close>.\<close>

definition async_to_pass :: "stmt \<Rightarrow> stmt" where
  "async_to_pass s = (if is_AsyncFunctionDef s then Pass else s)"

definition statement_without_async :: "stmt \<Rightarrow> stmt" where
  "statement_without_async s =
     (case s of
        ClassDef n bs b l \<Rightarrow> ClassDef n bs (map async_to_pass b) l
      | _ \<Rightarrow> async_to_pass s)"

definition without_async :: "stmt list \<Rightarrow> stmt list" where
  "without_async stmts = map statement_without_async stmts"

section \<open>Example sources\<close>

definition location_at :: "int \<Rightarrow> int \<Rightarrow> int \<Rightarrow> int \<Rightarrow> location" where
  "location_at l c el ec =
     \<lparr>lineno = l, col_offset = c, end_lineno = Some el, end_col_offset = Some ec\<rparr>"

text \<open>The example of the specification, and the tree the parser gives for it.\<close>

definition example_source :: string where
  \<open>example_source =
     ''"""Module doc."""\<newline>def foo():\<newline>    """Foo doc."""\<newline>    return 1\<newline>\<newline>class Bar(Base1, Base2):\<newline>    """Bar doc."""\<newline>    def method(self):\<newline>        pass\<newline>''\<close>

definition foo_node :: stmt where
  "foo_node =
     FunctionDef ''foo''
       [Expr (Constant (CStr ''Foo doc.'')), Return (Some (Constant (CInt 1)))]
       (location_at 2 0 4 12)"

definition method_node :: stmt where
  "method_node = FunctionDef ''method'' [Pass] (location_at 8 4 9 12)"

definition bar_node :: stmt where
  "bar_node =
     ClassDef ''Bar'' [Name ''Base1'', Name ''Base2'']
       [Expr (Constant (CStr ''Bar doc.'')), method_node] (location_at 6 0 9 12)"

definition example_stmts :: "stmt list" where
  "example_stmts = [Expr (Constant (CStr ''Module doc.'')), foo_node, bar_node]"

definition foo_info :: FunctionInfo where
  \<open>foo_info =
     \<lparr>FunctionInfo.name = ''foo'', FunctionInfo.docstring = Some ''Foo doc.'',
      content = Some ''def foo():\<newline>    """Foo doc."""\<newline>    return 1''\<rparr>\<close>

definition method_info :: FunctionInfo where
  "method_info =
     \<lparr>FunctionInfo.name = ''method'', FunctionInfo.docstring = None,
      content = Some ''def method(self):\<newline>        pass''\<rparr>"

definition bar_info :: ClassInfo where
  "bar_info =
     \<lparr>ClassInfo.name = ''Bar'', ClassInfo.docstring = Some ''Bar doc.'',
      bases = [''Base1'', ''Base2''], methods = [method_info]\<rparr>"

text \<open>A class with an assignment, a nested class and a method that defines a function.\<close>

definition nested_source :: string where
  "nested_source =
     ''class Outer:\<newline>    x = 1\<newline>    class Inner:\<newline>        def hidden(self):\<newline>            pass\<newline>    def method(self):\<newline>        def local():\<newline>            pass\<newline>        return local\<newline>''"

definition outer_method_node :: stmt where
  "outer_method_node =
     FunctionDef ''method''
       [FunctionDef ''local'' [Pass] (location_at 7 8 8 16), Return (Some (Name ''local''))]
       (location_at 6 4 9 20)"

definition outer_node :: stmt where
  "outer_node =
     ClassDef ''Outer'' []
       [Assign [Name ''x''] (Constant (CInt 1)),
        ClassDef ''Inner'' [] [FunctionDef ''hidden'' [Pass] (location_at 4 8 5 16)]
          (location_at 3 4 5 16),
        outer_method_node]
       (location_at 1 0 9 20)"

definition outer_method_info :: FunctionInfo where
  "outer_method_info =
     \<lparr>FunctionInfo.name = ''method'', FunctionInfo.docstring = None,
      content = Some ''def method(self):\<newline>        def local():\<newline>            pass\<newline>        return local''\<rparr>"

text \<open>A function whose docstring is indented, as docstrings of several lines are.\<close>

definition indented_doc_source :: string where
  \<open>indented_doc_source =
     ''def f():\<newline>    """Summary.\<newline>\<newline>    Details.\<newline>    """\<newline>''\<close>

definition indented_doc_value :: string where
  "indented_doc_value = ''Summary.\<newline>\<newline>    Details.\<newline>    ''"

definition indented_doc_stmts :: "stmt list" where
  "indented_doc_stmts =
     [FunctionDef ''f'' [Expr (Constant (CStr indented_doc_value))] (location_at 1 0 5 7)]"

text \<open>A module whose docstring is indented.\<close>

definition module_doc_source :: string where
  \<open>module_doc_source = ''"""Tools.\<newline>\<newline>    Usage notes.\<newline>"""\<newline>''\<close>

definition module_doc_value :: string where
  "module_doc_value = ''Tools.\<newline>\<newline>    Usage notes.\<newline>''"

definition module_doc_stmts :: "stmt list" where
  "module_doc_stmts = [Expr (Constant (CStr module_doc_value))]"

text \<open>Classes whose base is an attribute access or a subscript, and a module that starts
  with a call.\<close>

definition attribute_base_source :: string where
  "attribute_base_source = ''class C(module.Base):\<newline>    pass\<newline>''"

definition attribute_base_stmts :: "stmt list" where
  "attribute_base_stmts =
     [ClassDef ''C'' [Attribute (Name ''module'') ''Base''] [Pass] (location_at 1 0 2 8)]"

definition generic_base_source :: string where
  "generic_base_source = ''x = 1\<newline>class Box(Generic[T]):\<newline>    pass\<newline>''"

definition generic_base_stmts :: "stmt list" where
  "generic_base_stmts =
     [Assign [Name ''x''] (Constant (CInt 1)),
      ClassDef ''Box'' [Subscript (Name ''Generic'') (Name ''T'')] [Pass]
        (location_at 2 0 3 8)]"

definition call_first_source :: string where
  "call_first_source = ''print(1)\<newline>''"

definition call_first_stmts :: "stmt list" where
  "call_first_stmts = [Expr (Call (Name ''print'') [Constant (CInt 1)])]"

text \<open>A function with a character that is two bytes in UTF-8: the node ends at byte 20
  of the line, which is its character 19.\<close>

definition accent_source :: string where
  \<open>accent_source = ''def f(): return "'' @ [CHR 0xE9] @ ''" # c''\<close>

definition accent_node :: stmt where
  \<open>accent_node =
     FunctionDef ''f'' [Return (Some (Constant (CStr [CHR 0xE9])))] (location_at 1 0 1 20)\<close>

definition accent_info :: FunctionInfo where
  \<open>accent_info =
     \<lparr>FunctionInfo.name = ''f'', FunctionInfo.docstring = None,
      content = Some (''def f(): return "'' @ [CHR 0xE9] @ ''"'')\<rparr>\<close>

text \<open>A module whose docstring starts with a no-break space.\<close>

definition nbsp_stmts :: "stmt list" where
  "nbsp_stmts = [Expr (Constant (CStr (CHR 0xA0 # ''doc'')))]"

text \<open>The parser is known through the tree it returns: \<open>parser_giving stmts\<close> returns the
  module whose body is \<open>stmts\<close>.\<close>

definition parser_giving :: "stmt list \<Rightarrow> string \<Rightarrow> error + ast_mod" where
  "parser_giving stmts source = Inr (Module stmts)"

definition example_record :: ModuleInfo where
  "example_record =
     \<lparr>ModuleInfo.docstring = Some ''Module doc.'', ModuleInfo.classes = [bar_info],
      ModuleInfo.functions = [foo_info]\<rparr>"

definition example_record_entities :: ModuleInfo_entities where
  "example_record_entities =
     \<lparr>docs = AConst (CStr ''Module doc.''), ModuleInfo_entities.classes = [bar_info],
      ModuleInfo_entities.functions = [foo_info]\<rparr>"

definition outer_info :: ClassInfo where
  "outer_info =
     \<lparr>ClassInfo.name = ''Outer'', ClassInfo.docstring = None, bases = [],
      methods = [outer_method_info]\<rparr>"

definition indented_doc_info :: FunctionInfo where
  \<open>indented_doc_info =
     \<lparr>FunctionInfo.name = ''f'',
      FunctionInfo.docstring = Some ''Summary.\<newline>\<newline>Details.'',
      content = Some ''def f():\<newline>    """Summary.\<newline>\<newline>    Details.\<newline>    """''\<rparr>\<close>

text \<open>A module with an \<open>async def\<close> at top level and one in a class.\<close>

definition async_stmts :: "stmt list" where
  "async_stmts =
     [AsyncFunctionDef ''main'' [Pass] (location_at 1 0 2 8),
      ClassDef ''Client'' []
        [AsyncFunctionDef ''fetch'' [Pass] (location_at 4 4 5 12),
         FunctionDef ''close'' [Pass] (location_at 6 4 7 12)]
        (location_at 3 0 7 12)]"

definition async_source :: string where
  "async_source =
     ''async def main():\<newline>    pass\<newline>class Client:\<newline>    async def fetch(self):\<newline>        pass\<newline>    def close(self):\<newline>        pass\<newline>''"

definition close_info :: FunctionInfo where
  "close_info =
     \<lparr>FunctionInfo.name = ''close'', FunctionInfo.docstring = None,
      content = Some ''def close(self):\<newline>        pass''\<rparr>"

definition client_info :: ClassInfo where
  "client_info =
     \<lparr>ClassInfo.name = ''Client'', ClassInfo.docstring = None, bases = [],
      methods = [close_info]\<rparr>"

section \<open>Loops and list comprehensions\<close>

lemma collect_Inr_iff:
  "collect f xs = Inr ys \<longleftrightarrow> list_all2 (\<lambda>x y. f x = Inr y) xs ys"
proof (induction xs arbitrary: ys)
  case Nil
  show ?case by auto
next
  case (Cons x xs)
  show ?case
  proof (cases "f x")
    case (Inl e)
    then show ?thesis by (auto simp: list_all2_Cons1)
  next
    case fx: (Inr y)
    show ?thesis
    proof (cases "collect f xs")
      case (Inl e)
      then show ?thesis using fx Cons.IH by (auto simp: list_all2_Cons1)
    next
      case (Inr zs)
      have "\<And>ws. list_all2 (\<lambda>x y. f x = Inr y) xs ws \<longleftrightarrow> ws = zs"
        using Cons.IH [symmetric] Inr by auto
      then show ?thesis using fx Inr by (auto simp: list_all2_Cons1)
    qed
  qed
qed

lemma collect_cong:
  "(\<And>x. x \<in> set xs \<Longrightarrow> f x = g x) \<Longrightarrow> collect f xs = collect g xs"
  by (induction xs) (auto split: sum.splits)

lemma collect_map: "collect f (map g xs) = collect (\<lambda>x. f (g x)) xs"
  by (induction xs) (auto split: sum.splits)

lemma collect_total:
  "(\<And>x. x \<in> set xs \<Longrightarrow> f x = Inr (g x)) \<Longrightarrow> collect f xs = Inr (map g xs)"
  by (induction xs) auto

lemma append_functions_collect:
  "append_functions fs fc result =
     (case collect (\<lambda>f. get_function_info f fc) fs of
        Inl e \<Rightarrow> Inl e
      | Inr infos \<Rightarrow>
          Inr (result\<lparr>ModuleInfo_entities.functions :=
                       ModuleInfo_entities.functions result @ infos\<rparr>))"
  by (induction fs fc result rule: append_functions.induct) (auto split: sum.splits)

lemma py_index_last:
  "xs \<noteq> [] \<Longrightarrow> py_index xs (- 1) = Inr (last xs)"
  by (cases xs rule: rev_cases) (auto simp: py_index_def nth_append)

lemma append_methods_collect:
  "ModuleInfo_entities.classes result = cs @ [c] \<Longrightarrow>
   append_methods fs fc result =
     (case collect (\<lambda>f. get_function_info f fc) fs of
        Inl e \<Rightarrow> Inl e
      | Inr infos \<Rightarrow>
          Inr (result\<lparr>ModuleInfo_entities.classes :=
                       cs @ [c\<lparr>methods := methods c @ infos\<rparr>]\<rparr>))"
proof (induction fs fc result arbitrary: c rule: append_methods.induct)
  case (1 fc result)
  then show ?case by simp
next
  case (2 f fs fc result)
  have idx: "py_index (ModuleInfo_entities.classes result) (- 1) = Inr c"
    using "2.prems" py_index_last [of "cs @ [c]"] by simp
  show ?case
  proof (cases "get_function_info f fc")
    case (Inl e)
    then show ?thesis using idx by simp
  next
    case (Inr info)
    have "append_methods fs fc
            (result\<lparr>ModuleInfo_entities.classes :=
                      butlast (ModuleInfo_entities.classes result)
                      @ [c\<lparr>methods := methods c @ [info]\<rparr>]\<rparr>) =
          (case collect (\<lambda>f. get_function_info f fc) fs of
             Inl e \<Rightarrow> Inl e
           | Inr infos \<Rightarrow>
               Inr (result\<lparr>ModuleInfo_entities.classes :=
                       cs @ [c\<lparr>methods := methods c @ [info] @ infos\<rparr>]\<rparr>))"
      using "2.IH" [OF idx Inr, of "c\<lparr>methods := methods c @ [info]\<rparr>"] "2.prems"
      by (simp split: sum.splits)
    then show ?thesis using idx Inr by (simp split: sum.splits)
  qed
qed

lemma append_classes_collect:
  "append_classes cs fc result =
     (case collect (\<lambda>c. class_info_entities c fc) cs of
        Inl e \<Rightarrow> Inl e
      | Inr infos \<Rightarrow>
          Inr (result\<lparr>ModuleInfo_entities.classes :=
                       ModuleInfo_entities.classes result @ infos\<rparr>))"
proof (induction cs fc result rule: append_classes.induct)
  case (1 fc result)
  show ?case by simp
next
  case (2 c cs fc result)
  show ?case
  proof (cases "collect expr_id (stmt.bases c)")
    case (Inl e)
    then show ?thesis by (simp add: class_info_entities_def)
  next
    case bases: (Inr cbases)
    let ?new = "\<lparr>ClassInfo.name = stmt.name c,
                  ClassInfo.docstring = get_docstring (body c) True,
                  bases = cbases, methods = []\<rparr>"
    let ?result = "result\<lparr>ModuleInfo_entities.classes :=
                            ModuleInfo_entities.classes result @ [?new]\<rparr>"
    have meth: "append_methods (filter is_FunctionDef (body c)) fc ?result =
          (case collect (\<lambda>f. get_function_info f fc) (filter is_FunctionDef (body c)) of
             Inl e \<Rightarrow> Inl e
           | Inr infos \<Rightarrow>
               Inr (?result\<lparr>ModuleInfo_entities.classes :=
                       ModuleInfo_entities.classes result
                       @ [?new\<lparr>methods := methods ?new @ infos\<rparr>]\<rparr>))"
      by (rule append_methods_collect) simp
    show ?thesis
    proof (cases "collect (\<lambda>f. get_function_info f fc) (filter is_FunctionDef (body c))")
      case (Inl e)
      then show ?thesis using bases meth by (simp add: class_info_entities_def)
    next
      case (Inr infos)
      then show ?thesis
        using bases meth "2.IH" [OF refl refl bases, of _]
        by (simp add: class_info_entities_def split: sum.splits)
    qed
  qed
qed

lemma get_module_info_entities_unfold:
  "get_module_info_entities parse fc =
     (case parse fc of
        Inl e \<Rightarrow> Inl e
      | Inr (Module stmts) \<Rightarrow>
          (case py_index stmts 0 of
             Inl e \<Rightarrow> Inl e
           | Inr first \<Rightarrow>
               (case (case first of
                        Expr first_value \<Rightarrow> expr_value first_value
                      | _ \<Rightarrow> Inr (AConst CNone)) of
                  Inl e \<Rightarrow> Inl e
                | Inr file_docstring \<Rightarrow>
                    (case collect (\<lambda>f. get_function_info f fc)
                            (filter is_FunctionDef stmts) of
                       Inl e \<Rightarrow> Inl e
                     | Inr function_infos \<Rightarrow>
                         (case collect (\<lambda>c. class_info_entities c fc)
                                 (filter is_ClassDef stmts) of
                            Inl e \<Rightarrow> Inl e
                          | Inr class_infos \<Rightarrow>
                              Inr \<lparr>docs = file_docstring,
                                   ModuleInfo_entities.classes = class_infos,
                                   ModuleInfo_entities.functions = function_infos\<rparr>)))))"
  by (simp add: get_module_info_entities_def append_functions_collect append_classes_collect
        split: sum.splits ast_mod.splits)

lemma splitlines_loop_concat: "concat (splitlines_loop s acc) = acc @ s"
proof (induction s acc rule: splitlines_loop.induct)
  case (1 next_line)
  show ?case by simp
next
  case (2 c rest next_line)
  show ?case
  proof (cases "c = CR \<and> rest \<noteq> [] \<and> hd rest = LF")
    case True
    then obtain rest' where "rest = LF # rest'" by (cases rest) auto
    then show ?thesis using True "2.IH"(1) by simp
  next
    case False
    then show ?thesis using "2.IH"(2,3) by (cases "c = CR \<or> c = LF") auto
  qed
qed

lemma splitlines_concat: "concat (splitlines_no_ff source) = source"
  by (simp add: splitlines_no_ff_def splitlines_loop_concat)

lemma drop_concat_nth:
  assumes "i < length L" "c \<le> length (L ! i)"
  shows "drop (length (concat (take i L)) + c) (concat L)
         = drop c (L ! i) @ concat (drop (Suc i) L)"
proof -
  have "L = take i L @ L ! i # drop (Suc i) L"
    using assms(1) by (rule id_take_nth_drop)
  then have "concat L = concat (take i L) @ L ! i @ concat (drop (Suc i) L)"
    by (metis concat.simps(2) concat_append)
  then show ?thesis using assms(2) by simp
qed

lemma take_concat_until:
  assumes "i < j" "j < length L"
  shows "concat (take j L) = concat (take i L) @ L ! i @ concat (take (j - Suc i) (drop (Suc i) L))"
proof -
  have i: "i < length (take j L)" using assms by simp
  have "take j L = take i (take j L) @ take j L ! i # drop (Suc i) (take j L)"
    using i by (rule id_take_nth_drop)
  then have "take j L = take i L @ L ! i # take (j - Suc i) (drop (Suc i) L)"
    using assms by (simp add: min_def drop_take)
  then show ?thesis by (metis concat.simps(2) concat_append)
qed

lemma drop_split_at:
  assumes "i < j" "j < length L"
  shows "drop (Suc i) L = take (j - Suc i) (drop (Suc i) L) @ L ! j # drop (Suc j) L"
proof -
  have "j - Suc i < length (drop (Suc i) L)" using assms by simp
  then have "drop (Suc i) L = take (j - Suc i) (drop (Suc i) L)
        @ drop (Suc i) L ! (j - Suc i) # drop (Suc (j - Suc i)) (drop (Suc i) L)"
    by (rule id_take_nth_drop)
  moreover have "drop (Suc i) L ! (j - Suc i) = L ! j" using assms by simp
  moreover have "drop (Suc (j - Suc i)) (drop (Suc i) L) = drop (Suc j) L" using assms by simp
  ultimately show ?thesis by simp
qed

lemma segment_same_line:
  assumes "i < length L" "c \<le> e" "e \<le> length (L ! i)"
  shows "take ((length (concat (take i L)) + e) - (length (concat (take i L)) + c))
           (drop (length (concat (take i L)) + c) (concat L))
         = take (e - c) (drop c (L ! i))"
proof -
  have "c \<le> length (L ! i)" using assms by simp
  then have "drop (length (concat (take i L)) + c) (concat L)
        = drop c (L ! i) @ concat (drop (Suc i) L)"
    using assms(1) by (simp add: drop_concat_nth)
  then show ?thesis using assms by simp
qed

lemma segment_lines:
  assumes "i < j" "j < length L" "c \<le> length (L ! i)" "e \<le> length (L ! j)"
  shows "take ((length (concat (take j L)) + e) - (length (concat (take i L)) + c))
           (drop (length (concat (take i L)) + c) (concat L))
         = concat (drop c (L ! i) # take (j - Suc i) (drop (Suc i) L) @ [take e (L ! j)])"
proof -
  let ?M = "concat (take (j - Suc i) (drop (Suc i) L))"
  have i: "i < length L" using assms by simp
  have d: "drop (length (concat (take i L)) + c) (concat L)
        = drop c (L ! i) @ concat (drop (Suc i) L)"
    using i assms(3) by (rule drop_concat_nth)
  have "concat (drop (Suc i) L) = ?M @ L ! j @ concat (drop (Suc j) L)"
    using drop_split_at [OF assms(1,2)] by (metis concat.simps(2) concat_append)
  then have d': "drop (length (concat (take i L)) + c) (concat L)
        = (drop c (L ! i) @ ?M) @ L ! j @ concat (drop (Suc j) L)"
    using d by simp
  have "length (concat (take j L)) = length (concat (take i L)) + length (L ! i) + length ?M"
    using take_concat_until [OF assms(1,2)] by simp
  then have n: "(length (concat (take j L)) + e) - (length (concat (take i L)) + c)
        = length (drop c (L ! i) @ ?M) + e"
    using assms(3) by simp
  show ?thesis unfolding d' n using assms(4) by simp
qed

lemma py_index_nat: "i < length L \<Longrightarrow> py_index L (int i) = Inr (L ! i)"
  by (simp add: py_index_def)

lemma py_slice_from: "py_slice xs (Some (int a)) None = drop a xs"
  by (simp add: py_slice_def slice_bound_def min_def Let_def)

lemma py_slice_to: "py_slice xs None (Some (int b)) = take b xs"
  by (simp add: py_slice_def slice_bound_def min_def Let_def)

lemma py_slice_both: "py_slice xs (Some (int a)) (Some (int b)) = take (b - a) (drop a xs)"
  by (auto simp: py_slice_def slice_bound_def min_def Let_def)

section \<open>Encoding and decoding\<close>

lemma of_char_less_256: "(of_char c :: nat) < 256"
proof -
  have "(of_char c :: nat) mod 256 = of_char c" by (rule of_char_mod_256)
  moreover have "(of_char c :: nat) mod 256 < 256" by simp
  ultimately show ?thesis by simp
qed

lemma decode_Cons_ascii:
  "(of_char b :: nat) < 128 \<Longrightarrow>
   decode (b # bs) = (case decode bs of Inl e \<Rightarrow> Inl e | Inr s \<Rightarrow> Inr (b # s))"
  by (cases bs) simp_all

lemma div_64_lead:
  assumes "128 \<le> (n::nat)" "n < 256"
  shows "n div 64 = 2 \<or> n div 64 = 3"
proof -
  have "2 \<le> n div 64" using assms(1) by (simp add: less_eq_div_iff_mult_less_eq)
  moreover have "n div 64 < 4" using assms(2) by (simp add: div_less_iff_less_mult)
  ultimately show ?thesis by linarith
qed

lemma lead_byte:
  assumes "128 \<le> (n::nat)" "n < 256"
  shows "(of_char (char_of (192 + n div 64)) :: nat) = 192 + n div 64"
proof -
  have "192 + n div 64 < 256" using div_64_lead [OF assms] by linarith
  then show ?thesis by simp
qed

lemma continuation_byte:
  "(of_char (char_of (128 + (n::nat) mod 64)) :: nat) = 128 + n mod 64"
proof -
  have "n mod 64 < 64" by simp
  then have "128 + n mod 64 < 256" by linarith
  then show ?thesis by simp
qed

lemma decode_two_bytes:
  assumes "128 \<le> (of_char c :: nat)"
  shows "decode (char_of (192 + (of_char c :: nat) div 64)
                 # char_of (128 + (of_char c :: nat) mod 64) # bs)
         = (case decode bs of Inl e \<Rightarrow> Inl e | Inr s \<Rightarrow> Inr (c # s))"
proof -
  let ?n = "of_char c :: nat"
  have n: "128 \<le> ?n" "?n < 256" using assms of_char_less_256 [of c] by simp_all
  have l: "(of_char (char_of (192 + ?n div 64)) :: nat) = 192 + ?n div 64"
    using n by (rule lead_byte)
  have m: "(of_char (char_of (128 + ?n mod 64)) :: nat) = 128 + ?n mod 64"
    by (rule continuation_byte)
  have r: "char_of ((192 + ?n div 64 - 192) * 64 + (128 + ?n mod 64 - 128)) = c"
    by simp
  have k: "192 + ?n div 64 = 194 \<or> 192 + ?n div 64 = 195"
    using div_64_lead [OF n] by linarith
  have "decode (char_of (192 + ?n div 64) # char_of (128 + ?n mod 64) # bs)
      = (case decode bs of
           Inl e \<Rightarrow> Inl e
         | Inr s \<Rightarrow>
             Inr (char_of ((192 + ?n div 64 - 192) * 64 + (128 + ?n mod 64 - 128)) # s))"
    unfolding decode.simps l m Let_def using k by simp
  then show ?thesis unfolding r .
qed

lemma decode_encode_char:
  "decode (encode_char c @ bs) = (case decode bs of Inl e \<Rightarrow> Inl e | Inr s \<Rightarrow> Inr (c # s))"
proof (cases "(of_char c :: nat) < 128")
  case True
  then show ?thesis by (simp add: encode_char_def decode_Cons_ascii)
next
  case False
  then have "128 \<le> (of_char c :: nat)" by simp
  then show ?thesis
    using False by (simp add: encode_char_def Let_def decode_two_bytes del: decode.simps)
qed

lemma decode_encode_append:
  "decode (encode s @ bs) = (case decode bs of Inl e \<Rightarrow> Inl e | Inr t \<Rightarrow> Inr (s @ t))"
  by (induction s) (auto simp: encode_def decode_encode_char split: sum.splits)

lemma decode_encode: "decode (encode s) = Inr s"
  using decode_encode_append [of s "[]"] by simp

lemma encode_append: "encode (xs @ ys) = encode xs @ encode ys"
  by (simp add: encode_def)

lemma char_col_Some:
  "char_col line c = Some k \<Longrightarrow> k \<le> length line \<and> c = length (encode (take k line))"
proof (induction line c arbitrary: k rule: char_col.induct)
  case (1 line)
  then show ?case by (simp add: encode_def)
next
  case (2 c)
  then show ?case by simp
next
  case (3 ch line c)
  from "3.prems" have w: "length (encode_char ch) \<le> Suc c"
    by (simp split: if_splits)
  with "3.prems" obtain k' where k': "char_col line (Suc c - length (encode_char ch)) = Some k'"
    and k: "k = Suc k'"
    by auto
  from "3.IH" [OF w k'] have "k' \<le> length line"
    and "Suc c - length (encode_char ch) = length (encode (take k' line))"
    by simp_all
  then show ?case using w k by (simp add: encode_def)
qed

lemma char_col_take_drop:
  assumes "char_col line c = Some k"
  shows "take c (encode line) = encode (take k line)"
    and "drop c (encode line) = encode (drop k line)"
proof -
  have c: "c = length (encode (take k line))" using char_col_Some [OF assms] by simp
  have e: "encode line = encode (take k line) @ encode (drop k line)"
    by (metis append_take_drop_id encode_append)
  show "take c (encode line) = encode (take k line)" by (subst e) (simp add: c)
  show "drop c (encode line) = encode (drop k line)" by (subst e) (simp add: c)
qed

lemma decode_from: 
  assumes "char_col line c = Some k"
  shows "decode (drop c (encode line)) = Inr (drop k line)"
  by (simp add: char_col_take_drop(2) [OF assms] decode_encode)

lemma decode_to:
  assumes "char_col line c = Some k"
  shows "decode (take c (encode line)) = Inr (take k line)"
  by (simp add: char_col_take_drop(1) [OF assms] decode_encode)

lemma char_col_mono:
  assumes "char_col line c1 = Some k1" "char_col line c2 = Some k2" "k1 \<le> k2"
  shows "c2 - c1 = length (encode (take (k2 - k1) (drop k1 line)))"
proof -
  have "take k2 line = take k1 line @ take (k2 - k1) (drop k1 line)"
    using assms(3) by (metis le_add_diff_inverse take_add)
  then have "encode (take k2 line) = encode (take k1 line) @ encode (take (k2 - k1) (drop k1 line))"
    by (metis encode_append)
  then show ?thesis
    using char_col_Some [OF assms(1)] char_col_Some [OF assms(2)] by simp
qed

lemma decode_between:
  assumes "char_col line c1 = Some k1" "char_col line c2 = Some k2" "k1 \<le> k2"
  shows "decode (take (c2 - c1) (drop c1 (encode line))) = Inr (take (k2 - k1) (drop k1 line))"
proof -
  have "drop k1 line = take (k2 - k1) (drop k1 line) @ drop (k2 - k1) (drop k1 line)"
    by (rule append_take_drop_id [symmetric])
  then have "encode (drop k1 line)
      = encode (take (k2 - k1) (drop k1 line)) @ encode (drop (k2 - k1) (drop k1 line))"
    by (metis encode_append)
  then have "take (c2 - c1) (drop c1 (encode line)) = encode (take (k2 - k1) (drop k1 line))"
    using char_col_mono [OF assms] char_col_take_drop(2) [OF assms(1)] by simp
  then show ?thesis by (simp add: decode_encode)
qed

section \<open>The source segment of a node\<close>

lemma get_source_segment_nat:
  assumes "i \<le> j" "j < length (splitlines_no_ff source)"
    and "lineno node = int i + 1" "col_offset node = int c"
    and "end_lineno node = Some (int j + 1)" "end_col_offset node = Some (int e)"
    and "char_col (splitlines_no_ff source ! i) c = Some kc"
    and "char_col (splitlines_no_ff source ! j) e = Some ke"
    and "i = j \<Longrightarrow> kc \<le> ke"
  shows "get_source_segment source node
         = Inr (Some (if i = j then take (ke - kc) (drop kc (splitlines_no_ff source ! i))
                      else concat (drop kc (splitlines_no_ff source ! i)
                                   # take (j - Suc i) (drop (Suc i) (splitlines_no_ff source))
                                   @ [take ke (splitlines_no_ff source ! j)])))"
proof -
  let ?L = "splitlines_no_ff source"
  have i: "py_index ?L (int i) = Inr (?L ! i)" using assms(1,2) by (simp add: py_index_nat)
  have j: "py_index ?L (int j) = Inr (?L ! j)" using assms(2) by (simp add: py_index_nat)
  have m: "py_slice ?L (Some (int i + 1)) (Some (int j)) = take (j - Suc i) (drop (Suc i) ?L)"
    using py_slice_both [of ?L "Suc i" j] by (simp add: add.commute)
  have first: "decode (py_slice (encode (?L ! i)) (Some (int c)) None) = Inr (drop kc (?L ! i))"
    using assms(7) by (simp add: py_slice_from decode_from)
  have last: "decode (py_slice (encode (?L ! j)) None (Some (int e))) = Inr (take ke (?L ! j))"
    using assms(8) by (simp add: py_slice_to decode_to)
  show ?thesis
  proof (cases "i = j")
    case True
    then have "decode (py_slice (encode (?L ! i)) (Some (int c)) (Some (int e)))
        = Inr (take (ke - kc) (drop kc (?L ! i)))"
      using assms(7,8,9) by (simp add: py_slice_both decode_between)
    then show ?thesis
      using True by (simp add: get_source_segment_def assms(3-6) i j)
  next
    case False
    then show ?thesis
      by (simp add: get_source_segment_def assms(3-6) i j m first last Let_def)
  qed
qed

lemma get_source_segment_valid:
  assumes "valid_span source node"
  shows "get_source_segment source node = Inr (Some (source_span source node))"
    and "source_span source node \<noteq> []"
proof -
  let ?L = "splitlines_no_ff source"
  from assms obtain el ec where
    el: "end_lineno node = Some el" and ec: "end_col_offset node = Some ec"
    by (auto simp: valid_span_def split: option.splits)
  from assms el ec have p1: "position_in_text source (lineno node) (col_offset node)"
    and p2: "position_in_text source el ec"
    and lt: "start_offset source node < end_offset source node"
    by (simp_all add: valid_span_def)
  define i where "i = nat (lineno node - 1)"
  define j where "j = nat (el - 1)"
  define bc where "bc = nat (col_offset node)"
  define be where "be = nat ec"
  have i: "lineno node = int i + 1" "i < length ?L" and bc: "col_offset node = int bc"
    using p1 by (auto simp: position_in_text_def Let_def i_def bc_def)
  have j: "el = int j + 1" "j < length ?L" and be: "ec = int be"
    using p2 by (auto simp: position_in_text_def Let_def j_def be_def)
  obtain c where kc: "char_col (?L ! i) bc = Some c"
    using p1 by (auto simp: position_in_text_def Let_def i_def bc_def)
  obtain e where ke: "char_col (?L ! j) be = Some e"
    using p2 by (auto simp: position_in_text_def Let_def j_def be_def)
  have c: "c \<le> length (?L ! i)" using char_col_Some [OF kc] by simp
  have e: "e \<le> length (?L ! j)" using char_col_Some [OF ke] by simp
  have so: "start_offset source node = length (concat (take i ?L)) + c"
    using kc by (simp add: start_offset_def char_offset_def line_offset_def i_def bc_def)
  have eo: "end_offset source node = length (concat (take j ?L)) + e"
    using ke by (simp add: end_offset_def char_offset_def line_offset_def el ec j_def be_def)
  have ij: "i \<le> j"
  proof (rule ccontr)
    assume "\<not> i \<le> j"
    then have ji: "j < i" by simp
    have "length (concat (take i ?L)) = length (concat (take j ?L)) + length (?L ! j)
            + length (concat (take (i - Suc j) (drop (Suc j) ?L)))"
      using take_concat_until [OF ji i(2)] by simp
    then show False using lt e by (simp add: so eo)
  qed
  have same: "i = j \<Longrightarrow> c \<le> e" using lt by (simp add: so eo)
  have seg: "get_source_segment source node
         = Inr (Some (if i = j then take (e - c) (drop c (?L ! i))
                      else concat (drop c (?L ! i) # take (j - Suc i) (drop (Suc i) ?L)
                                   @ [take e (?L ! j)])))"
    using ij j(2) i(1) bc el [unfolded j(1)] ec [unfolded be] kc ke same
    by (rule get_source_segment_nat)
  have span: "source_span source node
         = (if i = j then take (e - c) (drop c (?L ! i))
            else concat (drop c (?L ! i) # take (j - Suc i) (drop (Suc i) ?L)
                         @ [take e (?L ! j)]))"
  proof (cases "i = j")
    case True
    then have "c \<le> e" using same by simp
    then show ?thesis
      using True segment_same_line [of i ?L c e] i(2) e
      by (simp add: source_span_def so eo splitlines_concat)
  next
    case False
    then have "i < j" using ij by simp
    then show ?thesis
      using False segment_lines [of i j ?L c e] j(2) c e
      by (simp add: source_span_def so eo splitlines_concat)
  qed
  show "get_source_segment source node = Inr (Some (source_span source node))"
    by (simp add: seg span)
  show "source_span source node \<noteq> []"
  proof (cases "i = j")
    case True
    then show ?thesis using lt c e by (simp add: span so eo)
  next
    case False
    then have "i < j" using ij by simp
    then have "length (concat (take j ?L)) = length (concat (take i ?L)) + length (?L ! i)
            + length (concat (take (j - Suc i) (drop (Suc i) ?L)))"
      using take_concat_until [of i j ?L] j(2) by simp
    then show ?thesis using False lt c e by (auto simp: span so eo)
  qed
qed

lemma function_info_of_valid_span:
  assumes "valid_span fc (loc node)"
  shows "extract_function_info node fc =
           Inr \<lparr>FunctionInfo.name = stmt.name node,
                FunctionInfo.docstring = get_docstring (body node) True,
                content = Some (source_span fc (loc node))\<rparr>"
    and "get_function_info node fc =
           Inr \<lparr>FunctionInfo.name = stmt.name node,
                FunctionInfo.docstring = get_docstring (body node) True,
                content = Some (source_span fc (loc node))\<rparr>"
  using get_source_segment_valid [OF assms]
  by (simp_all add: extract_function_info_def get_function_info_def or_empty_def)

lemma collect_functions_valid:
  assumes "list_all (\<lambda>f. valid_span fc (loc f)) fs"
  shows "collect (\<lambda>f. extract_function_info f fc) fs = Inr (map (function_info_of fc) fs)"
    and "collect (\<lambda>f. get_function_info f fc) fs = Inr (map (function_info_of fc) fs)"
  using assms
  by (auto intro!: collect_total
        simp: list_all_iff function_info_of_def function_info_of_valid_span)

section \<open>The fields of the records\<close>

lemma get_docstring_rule: "get_docstring stmts True = docstring_rule stmts"
  by (rule get_docstring.cases [of "(stmts, True)"]) (auto simp: docstring_rule_def)

lemma map_of_list_all2:
  assumes "list_all2 (\<lambda>x y. f x = Inr y) xs ys" "\<And>x y. f x = Inr y \<Longrightarrow> g y = h x"
  shows "map g ys = map h xs"
  using assms(1) by (induction rule: list_all2_induct) (auto simp: assms(2))

lemma extract_function_info_fields:
  assumes "extract_function_info node fc = Inr info"
  shows "FunctionInfo.name info = stmt.name node"
    and "FunctionInfo.docstring info = get_docstring (body node) True"
  using assms by (auto simp: extract_function_info_def split: sum.splits)

lemma get_function_info_fields:
  assumes "get_function_info node fc = Inr info"
  shows "FunctionInfo.name info = stmt.name node"
    and "FunctionInfo.docstring info = get_docstring (body node) True"
  using assms by (auto simp: get_function_info_def split: sum.splits)

lemma extract_class_info_fields:
  assumes "extract_class_info c fc = Inr info"
  shows "ClassInfo.name info = stmt.name c"
    and "ClassInfo.docstring info = get_docstring (body c) True"
    and "collect expr_id (stmt.bases c) = Inr (bases info)"
    and "collect (\<lambda>f. extract_function_info f fc) (filter is_FunctionDef (body c))
         = Inr (methods info)"
  using assms by (auto simp: extract_class_info_def split: sum.splits)

lemma class_info_entities_fields:
  assumes "class_info_entities c fc = Inr info"
  shows "ClassInfo.name info = stmt.name c"
    and "ClassInfo.docstring info = get_docstring (body c) True"
    and "collect expr_id (stmt.bases c) = Inr (bases info)"
    and "collect (\<lambda>f. get_function_info f fc) (filter is_FunctionDef (body c))
         = Inr (methods info)"
  using assms by (auto simp: class_info_entities_def split: sum.splits)

lemma get_module_info_fields:
  assumes "parse fc = Inr (Module stmts)" "get_module_info parse fc = Inr r"
  shows "ModuleInfo.docstring r = get_docstring stmts True"
    and "collect (\<lambda>f. extract_function_info f fc) (filter is_FunctionDef stmts)
         = Inr (ModuleInfo.functions r)"
    and "collect (\<lambda>c. extract_class_info c fc) (filter is_ClassDef stmts)
         = Inr (ModuleInfo.classes r)"
  using assms by (auto simp: get_module_info_def split: sum.splits)

lemma get_module_info_entities_fields:
  assumes "parse fc = Inr (Module stmts)" "get_module_info_entities parse fc = Inr r"
  shows "collect (\<lambda>f. get_function_info f fc) (filter is_FunctionDef stmts)
         = Inr (ModuleInfo_entities.functions r)"
    and "collect (\<lambda>c. class_info_entities c fc) (filter is_ClassDef stmts)
         = Inr (ModuleInfo_entities.classes r)"
  using assms by (auto simp: get_module_info_entities_unfold split: sum.splits)

lemma syntax_error_propagates:
  assumes "parse fc = Inl e"
  shows "get_module_info parse fc = Inl e" and "get_module_info_entities parse fc = Inl e"
  using assms by (simp_all add: get_module_info_def get_module_info_entities_def)

lemma example_definitions_result:
  "get_module_info (parser_giving example_stmts) example_source = Inr example_record"
  by code_simp

lemma example_entities_result:
  "get_module_info_entities (parser_giving example_stmts) example_source
   = Inr example_record_entities"
  by code_simp


section \<open>Sources on which extraction returns a record\<close>

text \<open>
  When the parser returns a module, every function node resolves to a valid span and
  every base of every top-level class is a simple name, \<open>extract_definitions.py\<close> returns
  a Module Record; \<open>extract_code_entities.py\<close> returns one when, in addition, the module
  has a first statement that is not an expression statement or is a string literal. The
  methods of every Class Record are then the records of the direct function children of
  the class. Nothing else of the source is looked at, so a source with undefined names
  or type errors is extracted like any other.
\<close>

lemma collect_simple_names:
  "list_all is_Name bs \<Longrightarrow> \<exists>ids. collect expr_id bs = Inr ids"
proof (induction bs)
  case Nil
  show ?case by simp
next
  case (Cons b bs)
  then obtain ident where "b = Name ident" by (cases b) auto
  moreover obtain ids where "collect expr_id bs = Inr ids" using Cons by auto
  ultimately show ?case by simp
qed

lemma extract_class_info_returns:
  assumes "list_all (\<lambda>f. valid_span fc (loc f)) (filter is_FunctionDef (body c))"
    and "list_all is_Name (stmt.bases c)"
  shows "\<exists>info. extract_class_info c fc = Inr info \<and>
           methods info = map (function_info_of fc) (filter is_FunctionDef (body c))"
    and "\<exists>info. class_info_entities c fc = Inr info \<and>
           methods info = map (function_info_of fc) (filter is_FunctionDef (body c))"
proof -
  obtain ids where ids: "collect expr_id (stmt.bases c) = Inr ids"
    using collect_simple_names [OF assms(2)] by blast
  show "\<exists>info. extract_class_info c fc = Inr info \<and>
           methods info = map (function_info_of fc) (filter is_FunctionDef (body c))"
    using collect_functions_valid(1) [OF assms(1)] ids by (simp add: extract_class_info_def)
  show "\<exists>info. class_info_entities c fc = Inr info \<and>
           methods info = map (function_info_of fc) (filter is_FunctionDef (body c))"
    using collect_functions_valid(2) [OF assms(1)] ids by (simp add: class_info_entities_def)
qed

lemma collect_classes_returns:
  assumes "\<And>c. c \<in> set cs \<Longrightarrow> \<exists>info. f c = Inr info \<and> methods info = g c"
  shows "\<exists>infos. collect f cs = Inr infos \<and> map methods infos = map g cs"
  using assms
proof (induction cs)
  case Nil
  show ?case by simp
next
  case (Cons c cs)
  obtain info where "f c = Inr info" "methods info = g c" using Cons.prems by auto
  moreover obtain infos where "collect f cs = Inr infos" "map methods infos = map g cs"
    using Cons by auto
  ultimately show ?case by simp
qed

lemma classes_of_resolved:
  assumes "resolved_spans fc stmts" "simple_bases stmts"
  shows "\<exists>infos. collect (\<lambda>c. extract_class_info c fc) (filter is_ClassDef stmts) = Inr infos \<and>
           map methods infos
           = map (\<lambda>c. map (function_info_of fc) (filter is_FunctionDef (body c)))
               (filter is_ClassDef stmts)"
    and "\<exists>infos. collect (\<lambda>c. class_info_entities c fc) (filter is_ClassDef stmts) = Inr infos \<and>
           map methods infos
           = map (\<lambda>c. map (function_info_of fc) (filter is_FunctionDef (body c)))
               (filter is_ClassDef stmts)"
proof -
  have c: "\<And>c. c \<in> set (filter is_ClassDef stmts) \<Longrightarrow>
      list_all (\<lambda>f. valid_span fc (loc f)) (filter is_FunctionDef (body c)) \<and>
      list_all is_Name (stmt.bases c)"
    using assms
    by (auto simp: resolved_spans_def simple_bases_def function_nodes_def list_all_iff)
  show "\<exists>infos. collect (\<lambda>c. extract_class_info c fc) (filter is_ClassDef stmts) = Inr infos \<and>
           map methods infos
           = map (\<lambda>c. map (function_info_of fc) (filter is_FunctionDef (body c)))
               (filter is_ClassDef stmts)"
    by (rule collect_classes_returns) (use c extract_class_info_returns(1) in blast)
  show "\<exists>infos. collect (\<lambda>c. class_info_entities c fc) (filter is_ClassDef stmts) = Inr infos \<and>
           map methods infos
           = map (\<lambda>c. map (function_info_of fc) (filter is_FunctionDef (body c)))
               (filter is_ClassDef stmts)"
    by (rule collect_classes_returns) (use c extract_class_info_returns(2) in blast)
qed

lemma functions_of_resolved:
  assumes "resolved_spans fc stmts"
  shows "collect (\<lambda>f. extract_function_info f fc) (filter is_FunctionDef stmts)
         = Inr (map (function_info_of fc) (filter is_FunctionDef stmts))"
    and "collect (\<lambda>f. get_function_info f fc) (filter is_FunctionDef stmts)
         = Inr (map (function_info_of fc) (filter is_FunctionDef stmts))"
proof -
  have "list_all (\<lambda>f. valid_span fc (loc f)) (filter is_FunctionDef stmts)"
    using assms by (simp add: resolved_spans_def function_nodes_def)
  then show "collect (\<lambda>f. extract_function_info f fc) (filter is_FunctionDef stmts)
         = Inr (map (function_info_of fc) (filter is_FunctionDef stmts))"
    and "collect (\<lambda>f. get_function_info f fc) (filter is_FunctionDef stmts)
         = Inr (map (function_info_of fc) (filter is_FunctionDef stmts))"
    by (rule collect_functions_valid)+
qed

lemma first_value_readable:
  assumes "readable_first_statement stmts"
  shows "\<exists>x d. py_index stmts 0 = Inr x \<and>
           (case x of Expr v \<Rightarrow> expr_value v | _ \<Rightarrow> Inr (AConst CNone)) = Inr d"
proof -
  from assms obtain x xs where s: "stmts = x # xs"
    by (cases stmts) (auto simp: readable_first_statement_def)
  have i: "py_index stmts 0 = Inr x" by (simp add: s py_index_def)
  have "\<exists>d. (case x of Expr v \<Rightarrow> expr_value v | _ \<Rightarrow> Inr (AConst CNone)) = Inr d"
  proof (cases "is_Expr x")
    case False
    then show ?thesis by (cases x) simp_all
  next
    case True
    then have "is_string_statement x"
      using assms by (simp add: readable_first_statement_def s)
    then obtain v where "x = Expr (Constant (CStr v))"
      by (cases x rule: is_string_statement.cases) auto
    then show ?thesis by simp
  qed
  then show ?thesis using i by blast
qed

lemma get_module_info_returns:
  assumes "parse fc = Inr (Module stmts)" "resolved_spans fc stmts" "simple_bases stmts"
  shows "\<exists>r. get_module_info parse fc = Inr r \<and>
           map methods (ModuleInfo.classes r)
           = map (\<lambda>c. map (function_info_of fc) (filter is_FunctionDef (body c)))
               (filter is_ClassDef stmts)"
proof -
  obtain infos where
    "collect (\<lambda>c. extract_class_info c fc) (filter is_ClassDef stmts) = Inr infos"
    "map methods infos
       = map (\<lambda>c. map (function_info_of fc) (filter is_FunctionDef (body c)))
           (filter is_ClassDef stmts)"
    using classes_of_resolved(1) [OF assms(2,3)] by blast
  then show ?thesis
    using functions_of_resolved(1) [OF assms(2)] assms(1) by (simp add: get_module_info_def)
qed

lemma get_module_info_entities_returns:
  assumes "parse fc = Inr (Module stmts)" "resolved_spans fc stmts" "simple_bases stmts"
    and "readable_first_statement stmts"
  shows "\<exists>r. get_module_info_entities parse fc = Inr r \<and>
           map methods (ModuleInfo_entities.classes r)
           = map (\<lambda>c. map (function_info_of fc) (filter is_FunctionDef (body c)))
               (filter is_ClassDef stmts)"
proof -
  obtain infos where
    "collect (\<lambda>c. class_info_entities c fc) (filter is_ClassDef stmts) = Inr infos"
    "map methods infos
       = map (\<lambda>c. map (function_info_of fc) (filter is_FunctionDef (body c)))
           (filter is_ClassDef stmts)"
    using classes_of_resolved(2) [OF assms(2,3)] by blast
  moreover obtain x d where "py_index stmts 0 = Inr x"
    "(case x of Expr v \<Rightarrow> expr_value v | _ \<Rightarrow> Inr (AConst CNone)) = Inr d"
    using first_value_readable [OF assms(4)] by blast
  ultimately show ?thesis
    using functions_of_resolved(2) [OF assms(2)] assms(1)
    by (simp add: get_module_info_entities_unfold)
qed

lemma get_module_info_succeeds:
  assumes "parse fc = Inr (Module stmts)" "resolved_spans fc stmts" "simple_bases stmts"
  shows "\<exists>r. get_module_info parse fc = Inr r"
  using get_module_info_returns [where parse = parse and fc = fc, OF assms] by blast

lemma get_module_info_entities_succeeds:
  assumes "parse fc = Inr (Module stmts)" "resolved_spans fc stmts" "simple_bases stmts"
    and "readable_first_statement stmts"
  shows "\<exists>r. get_module_info_entities parse fc = Inr r"
  using get_module_info_entities_returns [where parse = parse and fc = fc, OF assms] by blast

lemma example_resolved:
  "resolved_spans example_source example_stmts"
  "simple_bases example_stmts"
  "readable_first_statement example_stmts"
  by code_simp+

section \<open>One record for each definition\<close>

text \<open>
  Claim C2. When the parser returns a module, the \<open>functions\<close> of the Module Record are the
  records of the top-level \<open>FunctionDef\<close> statements and the \<open>classes\<close> are the records of
  the top-level \<open>ClassDef\<close> statements, one for each, in the order of the source; the
  names of the records are the names of these statements in that order. Statements of
  another kind give no record. This holds for both scripts.
\<close>

theorem one_record_per_definition:
  assumes "parse file_content = Inr (Module stmts)"
  shows "(\<forall>r. get_module_info parse file_content = Inr r \<longrightarrow>
            list_all2 (\<lambda>node info. extract_function_info node file_content = Inr info)
              (filter is_FunctionDef stmts) (ModuleInfo.functions r) \<and>
            list_all2 (\<lambda>node info. extract_class_info node file_content = Inr info)
              (filter is_ClassDef stmts) (ModuleInfo.classes r) \<and>
            map FunctionInfo.name (ModuleInfo.functions r)
              = map stmt.name (filter is_FunctionDef stmts) \<and>
            map ClassInfo.name (ModuleInfo.classes r)
              = map stmt.name (filter is_ClassDef stmts)) \<and>
         (\<forall>r. get_module_info_entities parse file_content = Inr r \<longrightarrow>
            list_all2 (\<lambda>node info. get_function_info node file_content = Inr info)
              (filter is_FunctionDef stmts) (ModuleInfo_entities.functions r) \<and>
            list_all2 (\<lambda>node info. class_info_entities node file_content = Inr info)
              (filter is_ClassDef stmts) (ModuleInfo_entities.classes r) \<and>
            map FunctionInfo.name (ModuleInfo_entities.functions r)
              = map stmt.name (filter is_FunctionDef stmts) \<and>
            map ClassInfo.name (ModuleInfo_entities.classes r)
              = map stmt.name (filter is_ClassDef stmts))"
proof (intro conjI allI impI)
  fix r
  assume r: "get_module_info parse file_content = Inr r"
  show f: "list_all2 (\<lambda>node info. extract_function_info node file_content = Inr info)
          (filter is_FunctionDef stmts) (ModuleInfo.functions r)"
    using get_module_info_fields(2) [OF assms r] by (simp add: collect_Inr_iff)
  show c: "list_all2 (\<lambda>node info. extract_class_info node file_content = Inr info)
          (filter is_ClassDef stmts) (ModuleInfo.classes r)"
    using get_module_info_fields(3) [OF assms r] by (simp add: collect_Inr_iff)
  show "map FunctionInfo.name (ModuleInfo.functions r)
          = map stmt.name (filter is_FunctionDef stmts)"
    using f by (rule map_of_list_all2) (rule extract_function_info_fields(1))
  show "map ClassInfo.name (ModuleInfo.classes r) = map stmt.name (filter is_ClassDef stmts)"
    using c by (rule map_of_list_all2) (rule extract_class_info_fields(1))
next
  fix r
  assume r: "get_module_info_entities parse file_content = Inr r"
  show f: "list_all2 (\<lambda>node info. get_function_info node file_content = Inr info)
          (filter is_FunctionDef stmts) (ModuleInfo_entities.functions r)"
    using get_module_info_entities_fields(1) [OF assms r] by (simp add: collect_Inr_iff)
  show c: "list_all2 (\<lambda>node info. class_info_entities node file_content = Inr info)
          (filter is_ClassDef stmts) (ModuleInfo_entities.classes r)"
    using get_module_info_entities_fields(2) [OF assms r] by (simp add: collect_Inr_iff)
  show "map FunctionInfo.name (ModuleInfo_entities.functions r)
          = map stmt.name (filter is_FunctionDef stmts)"
    using f by (rule map_of_list_all2) (rule get_function_info_fields(1))
  show "map ClassInfo.name (ModuleInfo_entities.classes r)
          = map stmt.name (filter is_ClassDef stmts)"
    using c by (rule map_of_list_all2) (rule class_info_entities_fields(1))
qed

theorem one_record_per_definition_witness:
  "parser_giving example_stmts example_source = Inr (Module example_stmts) \<and>
   get_module_info (parser_giving example_stmts) example_source = Inr example_record \<and>
   get_module_info_entities (parser_giving example_stmts) example_source
     = Inr example_record_entities \<and>
   map FunctionInfo.name (ModuleInfo.functions example_record) = [''foo''] \<and>
   map ClassInfo.name (ModuleInfo.classes example_record) = [''Bar''] \<and>
   map FunctionInfo.name (ModuleInfo_entities.functions example_record_entities) = [''foo''] \<and>
   map ClassInfo.name (ModuleInfo_entities.classes example_record_entities) = [''Bar'']"
proof -
  have p: "parser_giving example_stmts example_source = Inr (Module example_stmts)"
    by (simp add: parser_giving_def)
  have n: "map stmt.name (filter is_FunctionDef example_stmts) = [''foo'']"
    "map stmt.name (filter is_ClassDef example_stmts) = [''Bar'']"
    by (simp_all add: example_stmts_def foo_node_def bar_node_def)
  from one_record_per_definition
         [of "parser_giving example_stmts" example_source example_stmts, OF p]
       example_definitions_result example_entities_result
  show ?thesis using p n by simp
qed

lemma nested_definitions_result:
  "get_module_info (parser_giving [outer_node]) nested_source =
     Inr \<lparr>ModuleInfo.docstring = None, ModuleInfo.classes = [outer_info],
          ModuleInfo.functions = []\<rparr>"
  by code_simp

lemma nested_entities_result:
  "get_module_info_entities (parser_giving [outer_node]) nested_source =
     Inr \<lparr>docs = AConst CNone, ModuleInfo_entities.classes = [outer_info],
          ModuleInfo_entities.functions = []\<rparr>"
  by code_simp

lemma nested_resolved:
  "resolved_spans nested_source [outer_node]"
  "simple_bases [outer_node]"
  "readable_first_statement [outer_node]"
  by code_simp+

lemma nested_class_results:
  "extract_class_info outer_node nested_source = Inr outer_info"
  "class_info_entities outer_node nested_source = Inr outer_info"
  "extract_function_info outer_method_node nested_source = Inr outer_method_info"
  "get_function_info outer_method_node nested_source = Inr outer_method_info"
  by code_simp+

text \<open>
  Claim C7. For every top-level class, the \<open>methods\<close> of its Class Record are the records
  of the \<open>FunctionDef\<close> statements that are direct children of the class body, one for
  each, in the order of the source. Other statements of the class body, nested classes
  among them, give nothing, and a definition inside a method is not a direct child. This
  holds for both scripts whenever they return a record. They do return one with these
  methods, each with the span of its node as content: \<open>extract_definitions.py\<close> when
  every function node resolves to a valid span and every base is a simple name,
  \<open>extract_code_entities.py\<close> when in addition the module has a first statement that is
  not an expression statement or is a string literal.
\<close>

theorem methods_are_direct_function_children:
  assumes "parse file_content = Inr (Module stmts)"
  shows "(\<forall>r. get_module_info parse file_content = Inr r \<longrightarrow>
            list_all2
              (\<lambda>c info.
                 list_all2 (\<lambda>f m. extract_function_info f file_content = Inr m)
                   (filter is_FunctionDef (body c)) (methods info))
              (filter is_ClassDef stmts) (ModuleInfo.classes r)) \<and>
         (\<forall>r. get_module_info_entities parse file_content = Inr r \<longrightarrow>
            list_all2
              (\<lambda>c info.
                 list_all2 (\<lambda>f m. get_function_info f file_content = Inr m)
                   (filter is_FunctionDef (body c)) (methods info))
              (filter is_ClassDef stmts) (ModuleInfo_entities.classes r)) \<and>
         (resolved_spans file_content stmts \<and> simple_bases stmts \<longrightarrow>
            (\<exists>r. get_module_info parse file_content = Inr r \<and>
                 map methods (ModuleInfo.classes r)
                 = map (\<lambda>c. map (function_info_of file_content)
                                (filter is_FunctionDef (body c)))
                     (filter is_ClassDef stmts))) \<and>
         (resolved_spans file_content stmts \<and> simple_bases stmts \<and>
          readable_first_statement stmts \<longrightarrow>
            (\<exists>r. get_module_info_entities parse file_content = Inr r \<and>
                 map methods (ModuleInfo_entities.classes r)
                 = map (\<lambda>c. map (function_info_of file_content)
                                (filter is_FunctionDef (body c)))
                     (filter is_ClassDef stmts)))"
proof (intro conjI allI impI)
  fix r
  assume r: "get_module_info parse file_content = Inr r"
  have "list_all2 (\<lambda>c info. extract_class_info c file_content = Inr info)
          (filter is_ClassDef stmts) (ModuleInfo.classes r)"
    using get_module_info_fields(3) [OF assms r] by (simp add: collect_Inr_iff)
  then show "list_all2
      (\<lambda>c info. list_all2 (\<lambda>f m. extract_function_info f file_content = Inr m)
                   (filter is_FunctionDef (body c)) (methods info))
      (filter is_ClassDef stmts) (ModuleInfo.classes r)"
    by (rule list_all2_mono) (simp add: extract_class_info_fields(4) flip: collect_Inr_iff)
next
  fix r
  assume r: "get_module_info_entities parse file_content = Inr r"
  have "list_all2 (\<lambda>c info. class_info_entities c file_content = Inr info)
          (filter is_ClassDef stmts) (ModuleInfo_entities.classes r)"
    using get_module_info_entities_fields(2) [OF assms r] by (simp add: collect_Inr_iff)
  then show "list_all2
      (\<lambda>c info. list_all2 (\<lambda>f m. get_function_info f file_content = Inr m)
                   (filter is_FunctionDef (body c)) (methods info))
      (filter is_ClassDef stmts) (ModuleInfo_entities.classes r)"
    by (rule list_all2_mono) (simp add: class_info_entities_fields(4) flip: collect_Inr_iff)
next
  assume "resolved_spans file_content stmts \<and> simple_bases stmts"
  then show "\<exists>r. get_module_info parse file_content = Inr r \<and>
      map methods (ModuleInfo.classes r)
      = map (\<lambda>c. map (function_info_of file_content) (filter is_FunctionDef (body c)))
          (filter is_ClassDef stmts)"
    using get_module_info_returns [where parse = parse and fc = file_content, OF assms]
    by simp
next
  assume "resolved_spans file_content stmts \<and> simple_bases stmts \<and>
    readable_first_statement stmts"
  then show "\<exists>r. get_module_info_entities parse file_content = Inr r \<and>
      map methods (ModuleInfo_entities.classes r)
      = map (\<lambda>c. map (function_info_of file_content) (filter is_FunctionDef (body c)))
          (filter is_ClassDef stmts)"
    using get_module_info_entities_returns
            [where parse = parse and fc = file_content, OF assms]
    by simp
qed

theorem methods_are_direct_function_children_witness:
  "parser_giving [outer_node] nested_source = Inr (Module [outer_node]) \<and>
   resolved_spans nested_source [outer_node] \<and> simple_bases [outer_node] \<and>
   readable_first_statement [outer_node] \<and>
   get_module_info (parser_giving [outer_node]) nested_source =
     Inr \<lparr>ModuleInfo.docstring = None, ModuleInfo.classes = [outer_info],
          ModuleInfo.functions = []\<rparr> \<and>
   get_module_info_entities (parser_giving [outer_node]) nested_source =
     Inr \<lparr>docs = AConst CNone, ModuleInfo_entities.classes = [outer_info],
          ModuleInfo_entities.functions = []\<rparr> \<and>
   extract_class_info outer_node nested_source = Inr outer_info \<and>
   class_info_entities outer_node nested_source = Inr outer_info \<and>
   filter is_FunctionDef (body outer_node) = [outer_method_node] \<and>
   methods outer_info = [outer_method_info] \<and>
   extract_function_info outer_method_node nested_source = Inr outer_method_info \<and>
   get_function_info outer_method_node nested_source = Inr outer_method_info \<and>
   map (\<lambda>c. map (function_info_of nested_source) (filter is_FunctionDef (body c)))
     (filter is_ClassDef [outer_node]) = [[outer_method_info]]"
proof -
  have p: "parser_giving [outer_node] nested_source = Inr (Module [outer_node])"
    by (simp add: parser_giving_def)
  have f: "filter is_FunctionDef (body outer_node) = [outer_method_node]"
    by (simp add: outer_node_def outer_method_node_def)
  have m: "methods outer_info = [outer_method_info]"
    by (simp add: outer_info_def)
  note t = methods_are_direct_function_children
             [of "parser_giving [outer_node]" nested_source "[outer_node]", OF p]
  have c: "is_ClassDef outer_node"
    by (simp add: outer_node_def)
  from t nested_resolved obtain r where
    r: "get_module_info (parser_giving [outer_node]) nested_source = Inr r"
    and mr: "map methods (ModuleInfo.classes r)
     = map (\<lambda>c. map (function_info_of nested_source) (filter is_FunctionDef (body c)))
         (filter is_ClassDef [outer_node])"
    by blast
  have "r = \<lparr>ModuleInfo.docstring = None, ModuleInfo.classes = [outer_info],
          ModuleInfo.functions = []\<rparr>"
    using r nested_definitions_result by simp
  then have "map methods (ModuleInfo.classes r) = [[outer_method_info]]"
    by (simp add: m)
  with mr have e: "map (\<lambda>c. map (function_info_of nested_source)
         (filter is_FunctionDef (body c))) (filter is_ClassDef [outer_node])
       = [[outer_method_info]]"
    by simp
  show ?thesis
    using p f m e nested_resolved nested_definitions_result nested_entities_result
      nested_class_results
    by (simp add: c)
qed

section \<open>Docstrings\<close>

lemma docstring_rule_examples:
  "docstring_rule (Expr (Constant (CStr [])) # rest) = Some []"
  "docstring_rule (Pass # rest) = None"
  "docstring_rule [] = None"
  by (simp_all add: docstring_rule_def cleandoc_def expandtabs_def lstrip_def)

lemma expandtabs_no_tab: "TAB \<notin> set s \<Longrightarrow> expandtabs_from j s = s"
  by (induction s arbitrary: j) auto

lemma split_lf_no_lf: "LF \<notin> set s \<Longrightarrow> split_lf s = [s]"
  by (induction s) auto

lemma lstrip_no_space: "s = [] \<or> \<not> is_space (hd s) \<Longrightarrow> lstrip s = s"
  by (cases s) (auto simp: lstrip_def)

lemma cleandoc_single_line:
  assumes "LF \<notin> set s" "TAB \<notin> set s" "s = [] \<or> \<not> is_space (hd s)"
  shows "cleandoc s = s"
proof -
  have "split_lf (expandtabs s) = [s]"
    using assms(1,2) by (simp add: expandtabs_def expandtabs_no_tab split_lf_no_lf)
  then show ?thesis
    using lstrip_no_space [OF assms(3)] by (cases "s = []") (simp_all add: cleandoc_def)
qed

lemma nbsp_values:
  "docstring_rule nbsp_stmts = Some ''doc''"
  "raw_docstring_rule nbsp_stmts = Some (CHR 0xA0 # ''doc'')"
  "\<not> plain_first_statement nbsp_stmts"
  by code_simp+

text \<open>
  Claim C1 as the specification states it fails: the docstring of a record is not the
  value of the string literal. For a function whose docstring runs over several indented
  lines, the record holds the value cleaned by \<open>cleandoc\<close>, which differs from the value
  of the literal.
\<close>

theorem raw_docstring_counterexample:
  "get_module_info (parser_giving indented_doc_stmts) indented_doc_source =
     Inr \<lparr>ModuleInfo.docstring = None, ModuleInfo.classes = [],
          ModuleInfo.functions = [indented_doc_info]\<rparr> \<and>
   raw_docstring_rule (body (hd indented_doc_stmts)) = Some indented_doc_value \<and>
   FunctionInfo.docstring indented_doc_info \<noteq> raw_docstring_rule (body (hd indented_doc_stmts))"
  by code_simp

text \<open>
  Claim C1, amended. When the parser returns a module, then in \<open>extract_definitions.py\<close>
  the docstring of the module, of every top-level function, of every top-level class and
  of every method, and in \<open>extract_code_entities.py\<close> the docstring of every top-level
  function, class and method, is present exactly when the first statement of the body is
  a bare string-literal expression statement, and it is then \<open>cleandoc\<close> of the value of
  that string; otherwise it is absent. The scripts return such records when every
  function node resolves to a valid span and every base is a simple name (and, for
  \<open>extract_code_entities.py\<close>, the module has a first statement that is not an expression
  statement or is a string literal). A first statement that is the empty string gives
  the empty docstring, which is not the absent one; a first statement \<open>pass\<close> gives the
  absent one. A value of one line with no tab and no leading whitespace is kept as it
  is by \<open>cleandoc\<close>.
\<close>

theorem docstring_is_cleaned_first_string:
  assumes "parse file_content = Inr (Module stmts)"
  shows "(\<forall>r. get_module_info parse file_content = Inr r \<longrightarrow>
            ModuleInfo.docstring r = docstring_rule stmts \<and>
            map FunctionInfo.docstring (ModuleInfo.functions r)
              = map (\<lambda>f. docstring_rule (body f)) (filter is_FunctionDef stmts) \<and>
            map ClassInfo.docstring (ModuleInfo.classes r)
              = map (\<lambda>c. docstring_rule (body c)) (filter is_ClassDef stmts) \<and>
            map (\<lambda>info. map FunctionInfo.docstring (methods info)) (ModuleInfo.classes r)
              = map (\<lambda>c. map (\<lambda>f. docstring_rule (body f)) (filter is_FunctionDef (body c)))
                  (filter is_ClassDef stmts)) \<and>
         (\<forall>r. get_module_info_entities parse file_content = Inr r \<longrightarrow>
            map FunctionInfo.docstring (ModuleInfo_entities.functions r)
              = map (\<lambda>f. docstring_rule (body f)) (filter is_FunctionDef stmts) \<and>
            map ClassInfo.docstring (ModuleInfo_entities.classes r)
              = map (\<lambda>c. docstring_rule (body c)) (filter is_ClassDef stmts) \<and>
            map (\<lambda>info. map FunctionInfo.docstring (methods info))
                (ModuleInfo_entities.classes r)
              = map (\<lambda>c. map (\<lambda>f. docstring_rule (body f)) (filter is_FunctionDef (body c)))
                  (filter is_ClassDef stmts)) \<and>
         (resolved_spans file_content stmts \<and> simple_bases stmts \<longrightarrow>
            (\<exists>r. get_module_info parse file_content = Inr r)) \<and>
         (resolved_spans file_content stmts \<and> simple_bases stmts \<and>
          readable_first_statement stmts \<longrightarrow>
            (\<exists>r. get_module_info_entities parse file_content = Inr r)) \<and>
         docstring_rule (Expr (Constant (CStr [])) # rest) = Some [] \<and>
         docstring_rule (Pass # rest) = None \<and>
         (LF \<notin> set s \<and> TAB \<notin> set s \<and> (s = [] \<or> \<not> is_space (hd s)) \<longrightarrow>
            cleandoc s = s)"
proof (intro conjI allI impI)
  fix r
  assume r: "get_module_info parse file_content = Inr r"
  have f: "list_all2 (\<lambda>node info. extract_function_info node file_content = Inr info)
          (filter is_FunctionDef stmts) (ModuleInfo.functions r)"
    using get_module_info_fields(2) [OF assms r] by (simp add: collect_Inr_iff)
  have c: "list_all2 (\<lambda>node info. extract_class_info node file_content = Inr info)
          (filter is_ClassDef stmts) (ModuleInfo.classes r)"
    using get_module_info_fields(3) [OF assms r] by (simp add: collect_Inr_iff)
  show "ModuleInfo.docstring r = docstring_rule stmts"
    using get_module_info_fields(1) [OF assms r] by (simp add: get_docstring_rule)
  show "map FunctionInfo.docstring (ModuleInfo.functions r)
          = map (\<lambda>f. docstring_rule (body f)) (filter is_FunctionDef stmts)"
    using f by (rule map_of_list_all2)
      (simp add: extract_function_info_fields(2) get_docstring_rule)
  show "map ClassInfo.docstring (ModuleInfo.classes r)
          = map (\<lambda>c. docstring_rule (body c)) (filter is_ClassDef stmts)"
    using c by (rule map_of_list_all2)
      (simp add: extract_class_info_fields(2) get_docstring_rule)
  show "map (\<lambda>info. map FunctionInfo.docstring (methods info)) (ModuleInfo.classes r)
          = map (\<lambda>c. map (\<lambda>f. docstring_rule (body f)) (filter is_FunctionDef (body c)))
              (filter is_ClassDef stmts)"
    using c
  proof (rule map_of_list_all2)
    fix x y
    assume "extract_class_info x file_content = Inr y"
    then have "list_all2 (\<lambda>f m. extract_function_info f file_content = Inr m)
            (filter is_FunctionDef (body x)) (methods y)"
      using extract_class_info_fields(4) by (simp add: collect_Inr_iff)
    then show "map FunctionInfo.docstring (methods y)
            = map (\<lambda>f. docstring_rule (body f)) (filter is_FunctionDef (body x))"
      by (rule map_of_list_all2)
        (simp add: extract_function_info_fields(2) get_docstring_rule)
  qed
next
  fix r
  assume r: "get_module_info_entities parse file_content = Inr r"
  have f: "list_all2 (\<lambda>node info. get_function_info node file_content = Inr info)
          (filter is_FunctionDef stmts) (ModuleInfo_entities.functions r)"
    using get_module_info_entities_fields(1) [OF assms r] by (simp add: collect_Inr_iff)
  have c: "list_all2 (\<lambda>node info. class_info_entities node file_content = Inr info)
          (filter is_ClassDef stmts) (ModuleInfo_entities.classes r)"
    using get_module_info_entities_fields(2) [OF assms r] by (simp add: collect_Inr_iff)
  show "map FunctionInfo.docstring (ModuleInfo_entities.functions r)
          = map (\<lambda>f. docstring_rule (body f)) (filter is_FunctionDef stmts)"
    using f by (rule map_of_list_all2)
      (simp add: get_function_info_fields(2) get_docstring_rule)
  show "map ClassInfo.docstring (ModuleInfo_entities.classes r)
          = map (\<lambda>c. docstring_rule (body c)) (filter is_ClassDef stmts)"
    using c by (rule map_of_list_all2)
      (simp add: class_info_entities_fields(2) get_docstring_rule)
  show "map (\<lambda>info. map FunctionInfo.docstring (methods info))
            (ModuleInfo_entities.classes r)
          = map (\<lambda>c. map (\<lambda>f. docstring_rule (body f)) (filter is_FunctionDef (body c)))
              (filter is_ClassDef stmts)"
    using c
  proof (rule map_of_list_all2)
    fix x y
    assume "class_info_entities x file_content = Inr y"
    then have "list_all2 (\<lambda>f m. get_function_info f file_content = Inr m)
            (filter is_FunctionDef (body x)) (methods y)"
      using class_info_entities_fields(4) by (simp add: collect_Inr_iff)
    then show "map FunctionInfo.docstring (methods y)
            = map (\<lambda>f. docstring_rule (body f)) (filter is_FunctionDef (body x))"
      by (rule map_of_list_all2)
        (simp add: get_function_info_fields(2) get_docstring_rule)
  qed
next
  assume "resolved_spans file_content stmts \<and> simple_bases stmts"
  then show "\<exists>r. get_module_info parse file_content = Inr r"
    using get_module_info_succeeds [where parse = parse and fc = file_content, OF assms]
    by simp
next
  assume "resolved_spans file_content stmts \<and> simple_bases stmts \<and>
    readable_first_statement stmts"
  then show "\<exists>r. get_module_info_entities parse file_content = Inr r"
    using get_module_info_entities_succeeds
            [where parse = parse and fc = file_content, OF assms]
    by simp
next
  show "docstring_rule (Expr (Constant (CStr [])) # rest) = Some []"
    by (rule docstring_rule_examples(1))
  show "docstring_rule (Pass # rest) = None"
    by (rule docstring_rule_examples(2))
next
  assume "LF \<notin> set s \<and> TAB \<notin> set s \<and> (s = [] \<or> \<not> is_space (hd s))"
  then show "cleandoc s = s" by (simp add: cleandoc_single_line)
qed

theorem docstring_is_cleaned_first_string_witness:
  "parser_giving example_stmts example_source = Inr (Module example_stmts) \<and>
   resolved_spans example_source example_stmts \<and> simple_bases example_stmts \<and>
   readable_first_statement example_stmts \<and>
   get_module_info (parser_giving example_stmts) example_source = Inr example_record \<and>
   get_module_info_entities (parser_giving example_stmts) example_source
     = Inr example_record_entities \<and>
   ModuleInfo.docstring example_record = docstring_rule example_stmts \<and>
   docstring_rule example_stmts = Some ''Module doc.'' \<and>
   map FunctionInfo.docstring (ModuleInfo.functions example_record) = [Some ''Foo doc.''] \<and>
   map ClassInfo.docstring (ModuleInfo.classes example_record) = [Some ''Bar doc.''] \<and>
   map (\<lambda>info. map FunctionInfo.docstring (methods info)) (ModuleInfo.classes example_record)
     = [[None]] \<and>
   map (\<lambda>f. docstring_rule (body f)) (filter is_FunctionDef example_stmts)
     = [Some ''Foo doc.''] \<and>
   map (\<lambda>c. docstring_rule (body c)) (filter is_ClassDef example_stmts)
     = [Some ''Bar doc.''] \<and>
   map (\<lambda>c. map (\<lambda>f. docstring_rule (body f)) (filter is_FunctionDef (body c)))
     (filter is_ClassDef example_stmts) = [[None]] \<and>
   cleandoc ''Module doc.'' = ''Module doc.'' \<and>
   docstring_rule nbsp_stmts = Some ''doc'' \<and>
   cleandoc indented_doc_value = ''Summary.\<newline>\<newline>Details.''"
proof -
  have p: "parser_giving example_stmts example_source = Inr (Module example_stmts)"
    by (simp add: parser_giving_def)
  have d: "docstring_rule example_stmts = Some ''Module doc.''"
    by code_simp
  have i: "cleandoc indented_doc_value = ''Summary.\<newline>\<newline>Details.''"
    by code_simp
  have s: "LF \<notin> set ''Module doc.'' \<and> TAB \<notin> set ''Module doc.'' \<and>
      (''Module doc.'' = [] \<or> \<not> is_space (hd ''Module doc.''))"
    by (simp add: is_space_def)
  have v: "map FunctionInfo.docstring (ModuleInfo.functions example_record) = [Some ''Foo doc.'']"
    "map ClassInfo.docstring (ModuleInfo.classes example_record) = [Some ''Bar doc.'']"
    "map (\<lambda>info. map FunctionInfo.docstring (methods info)) (ModuleInfo.classes example_record)
       = [[None]]"
    by (simp_all add: example_record_def foo_info_def bar_info_def method_info_def)
  from docstring_is_cleaned_first_string
         [where parse = "parser_giving example_stmts" and file_content = example_source
            and stmts = example_stmts and s = "''Module doc.''", OF p]
       example_definitions_result
  show ?thesis
    using p d i s v example_resolved example_entities_result nbsp_values(1) by simp
qed

section \<open>The content of a Function Record\<close>

lemma span_is_substring:
  assumes "start_offset source node \<le> end_offset source node"
  shows "source = take (start_offset source node) source @ source_span source node
           @ drop (end_offset source node) source"
proof -
  let ?s = "start_offset source node" and ?e = "end_offset source node"
  have "drop ?s source = take (?e - ?s) (drop ?s source) @ drop (?e - ?s) (drop ?s source)"
    by (rule append_take_drop_id [symmetric])
  moreover have "drop (?e - ?s) (drop ?s source) = drop ?e source"
    using assms by simp
  ultimately have "drop ?s source = source_span source node @ drop ?e source"
    by (simp add: source_span_def)
  then show ?thesis by (metis append_take_drop_id)
qed

lemma accent_values:
  "valid_span accent_source (loc accent_node)"
  "source_span accent_source (loc accent_node) = the (content accent_info)"
  by code_simp+

text \<open>
  Claim C6. When the node of a function resolves to a valid span of the source text, both
  scripts build the record whose \<open>content\<close> is the substring of the source text from the
  start of the node to its end, exactly; this substring is not empty, and the source
  text is the text before it, the substring, and the text after it.
\<close>

theorem content_is_source_span:
  assumes "valid_span file_content (loc node)"
  shows "extract_function_info node file_content =
           Inr \<lparr>FunctionInfo.name = stmt.name node,
                FunctionInfo.docstring = get_docstring (body node) True,
                content = Some (source_span file_content (loc node))\<rparr> \<and>
         get_function_info node file_content =
           Inr \<lparr>FunctionInfo.name = stmt.name node,
                FunctionInfo.docstring = get_docstring (body node) True,
                content = Some (source_span file_content (loc node))\<rparr> \<and>
         source_span file_content (loc node) \<noteq> [] \<and>
         file_content =
           take (start_offset file_content (loc node)) file_content
           @ source_span file_content (loc node)
           @ drop (end_offset file_content (loc node)) file_content"
proof -
  have seg: "get_source_segment file_content (loc node)
        = Inr (Some (source_span file_content (loc node)))"
    using assms by (rule get_source_segment_valid(1))
  have ne: "source_span file_content (loc node) \<noteq> []"
    using assms by (rule get_source_segment_valid(2))
  have "start_offset file_content (loc node) \<le> end_offset file_content (loc node)"
    using assms by (auto simp: valid_span_def split: option.splits)
  then have sub: "file_content =
           take (start_offset file_content (loc node)) file_content
           @ source_span file_content (loc node)
           @ drop (end_offset file_content (loc node)) file_content"
    by (rule span_is_substring)
  show ?thesis
    using seg ne sub
    by (simp add: extract_function_info_def get_function_info_def or_empty_def)
qed

theorem content_is_source_span_witness:
  "valid_span example_source (loc method_node) \<and>
   source_span example_source (loc method_node) = ''def method(self):\<newline>        pass'' \<and>
   extract_function_info method_node example_source = Inr method_info \<and>
   get_function_info method_node example_source = Inr method_info \<and>
   valid_span accent_source (loc accent_node) \<and>
   extract_function_info accent_node accent_source = Inr accent_info \<and>
   get_function_info accent_node accent_source = Inr accent_info"
proof -
  have v: "valid_span example_source (loc method_node)"
    by code_simp
  have s: "source_span example_source (loc method_node) = ''def method(self):\<newline>        pass''"
    by code_simp
  have m: "method_info = \<lparr>FunctionInfo.name = stmt.name method_node,
                FunctionInfo.docstring = get_docstring (body method_node) True,
                content = Some ''def method(self):\<newline>        pass''\<rparr>"
    by (simp add: method_info_def method_node_def)
  have a: "accent_info = \<lparr>FunctionInfo.name = stmt.name accent_node,
                FunctionInfo.docstring = get_docstring (body accent_node) True,
                content = Some (source_span accent_source (loc accent_node))\<rparr>"
    using accent_values(2) by (simp add: accent_info_def accent_node_def)
  from content_is_source_span [OF v] content_is_source_span [OF accent_values(1)]
  show ?thesis using v s m a accent_values(1) by simp
qed

section \<open>Asynchronous function definitions\<close>

lemma async_to_pass_kinds:
  "is_FunctionDef (async_to_pass s) = is_FunctionDef s"
  "is_ClassDef (async_to_pass s) = is_ClassDef s"
  "is_Expr (async_to_pass s) = is_Expr s"
  "is_FunctionDef s \<Longrightarrow> async_to_pass s = s"
  "is_ClassDef s \<Longrightarrow> async_to_pass s = s"
  "is_Expr s \<Longrightarrow> async_to_pass s = s"
  by (cases s; simp add: async_to_pass_def)+

lemma filter_FunctionDef_async:
  "filter is_FunctionDef (map async_to_pass b) = filter is_FunctionDef b"
  by (induction b) (auto simp: async_to_pass_kinds)

lemma get_docstring_head:
  "get_docstring (x # xs) clean = get_docstring (x # ys) clean"
  by (rule get_docstring.cases [of "(x # xs, clean)"]) auto

lemma get_docstring_not_Expr: "\<not> is_Expr x \<Longrightarrow> get_docstring (x # xs) clean = None"
  by (cases x) auto

lemma get_docstring_async:
  "get_docstring (map async_to_pass b) clean = get_docstring b clean"
proof (cases b)
  case Nil
  then show ?thesis by simp
next
  case (Cons x xs)
  show ?thesis
  proof (cases "is_Expr x")
    case True
    then show ?thesis using Cons get_docstring_head [of x "map async_to_pass xs" clean xs]
      by (simp add: async_to_pass_kinds)
  next
    case False
    then have "\<not> is_Expr (async_to_pass x)" by (simp add: async_to_pass_kinds)
    then show ?thesis using False Cons by (simp add: get_docstring_not_Expr)
  qed
qed

lemma statement_without_async_kinds:
  "is_FunctionDef (statement_without_async s) = is_FunctionDef s"
  "is_ClassDef (statement_without_async s) = is_ClassDef s"
  "is_Expr (statement_without_async s) = is_Expr s"
  "is_FunctionDef s \<Longrightarrow> statement_without_async s = s"
  "is_Expr s \<Longrightarrow> statement_without_async s = s"
  by (cases s; simp add: statement_without_async_def async_to_pass_def)+

lemma filter_FunctionDef_without_async:
  "filter is_FunctionDef (without_async stmts) = filter is_FunctionDef stmts"
  unfolding without_async_def
  by (induction stmts) (auto simp: statement_without_async_kinds)

lemma filter_ClassDef_without_async:
  "filter is_ClassDef (without_async stmts) = map statement_without_async (filter is_ClassDef stmts)"
  unfolding without_async_def
  by (induction stmts) (auto simp: statement_without_async_kinds)

lemma get_docstring_without_async:
  "get_docstring (without_async stmts) clean = get_docstring stmts clean"
proof (cases stmts)
  case Nil
  then show ?thesis by (simp add: without_async_def)
next
  case (Cons x xs)
  show ?thesis
  proof (cases "is_Expr x")
    case True
    then show ?thesis
      using Cons get_docstring_head [of x "map statement_without_async xs" clean xs]
      by (simp add: without_async_def statement_without_async_kinds)
  next
    case False
    then have "\<not> is_Expr (statement_without_async x)" by (simp add: statement_without_async_kinds)
    then show ?thesis using False Cons by (simp add: without_async_def get_docstring_not_Expr)
  qed
qed

lemma extract_class_info_without_async:
  "is_ClassDef c \<Longrightarrow>
   extract_class_info (statement_without_async c) fc = extract_class_info c fc"
  by (cases c)
    (simp_all add: statement_without_async_def extract_class_info_def filter_FunctionDef_async
       get_docstring_async cong: sum.case_cong)

lemma class_info_entities_without_async:
  "is_ClassDef c \<Longrightarrow>
   class_info_entities (statement_without_async c) fc = class_info_entities c fc"
  by (cases c)
    (simp_all add: statement_without_async_def class_info_entities_def filter_FunctionDef_async
       get_docstring_async cong: sum.case_cong)

lemma collect_classes_without_async:
  "collect (\<lambda>c. extract_class_info c fc) (filter is_ClassDef (without_async stmts))
   = collect (\<lambda>c. extract_class_info c fc) (filter is_ClassDef stmts)"
  "collect (\<lambda>c. class_info_entities c fc) (filter is_ClassDef (without_async stmts))
   = collect (\<lambda>c. class_info_entities c fc) (filter is_ClassDef stmts)"
  by (auto simp: filter_ClassDef_without_async collect_map
        extract_class_info_without_async class_info_entities_without_async
      intro!: collect_cong)

lemma first_value_without_async:
  "(case py_index (without_async stmts) 0 of
      Inl e \<Rightarrow> Inl e
    | Inr first \<Rightarrow> (case first of Expr v \<Rightarrow> expr_value v | _ \<Rightarrow> Inr (AConst CNone)))
   = (case py_index stmts 0 of
      Inl e \<Rightarrow> Inl e
    | Inr first \<Rightarrow> (case first of Expr v \<Rightarrow> expr_value v | _ \<Rightarrow> Inr (AConst CNone)))"
proof (cases stmts)
  case Nil
  then show ?thesis by (simp add: without_async_def)
next
  case (Cons x xs)
  then show ?thesis
    by (cases x)
      (simp_all add: without_async_def py_index_def statement_without_async_def async_to_pass_def)
qed

lemma get_module_info_without_async:
  "get_module_info (parser_giving (without_async stmts)) fc
   = get_module_info (parser_giving stmts) fc"
  by (simp add: get_module_info_def parser_giving_def get_docstring_without_async
        filter_FunctionDef_without_async collect_classes_without_async
      cong: sum.case_cong)

lemma get_module_info_entities_without_async:
  "get_module_info_entities (parser_giving (without_async stmts)) fc
   = get_module_info_entities (parser_giving stmts) fc"
proof -
  have "get_module_info_entities (parser_giving (without_async stmts)) fc =
      (case (case py_index (without_async stmts) 0 of
               Inl e \<Rightarrow> Inl e
             | Inr first \<Rightarrow>
                 (case first of Expr v \<Rightarrow> expr_value v | _ \<Rightarrow> Inr (AConst CNone))) of
         Inl e \<Rightarrow> Inl e
       | Inr file_docstring \<Rightarrow>
           (case collect (\<lambda>f. get_function_info f fc) (filter is_FunctionDef stmts) of
              Inl e \<Rightarrow> Inl e
            | Inr function_infos \<Rightarrow>
                (case collect (\<lambda>c. class_info_entities c fc) (filter is_ClassDef stmts) of
                   Inl e \<Rightarrow> Inl e
                 | Inr class_infos \<Rightarrow>
                     Inr \<lparr>docs = file_docstring,
                          ModuleInfo_entities.classes = class_infos,
                          ModuleInfo_entities.functions = function_infos\<rparr>)))"
    by (simp add: get_module_info_entities_unfold parser_giving_def
          filter_FunctionDef_without_async collect_classes_without_async
        split: sum.splits cong: sum.case_cong)
  also have "\<dots> = get_module_info_entities (parser_giving stmts) fc"
    unfolding first_value_without_async
    by (simp add: get_module_info_entities_unfold parser_giving_def split: sum.splits)
  finally show ?thesis .
qed

lemma async_result:
  "get_module_info (parser_giving (without_async async_stmts)) async_source =
     Inr \<lparr>ModuleInfo.docstring = None, ModuleInfo.classes = [client_info],
          ModuleInfo.functions = []\<rparr>"
  "get_module_info_entities (parser_giving (without_async async_stmts)) async_source =
     Inr \<lparr>docs = AConst CNone, ModuleInfo_entities.classes = [client_info],
          ModuleInfo_entities.functions = []\<rparr>"
  by code_simp+

text \<open>
  Claim C10. An \<open>async def\<close> is ignored everywhere: replacing every \<open>async def\<close> at top
  level and every \<open>async def\<close> that is a direct child of a top-level class body by \<open>pass\<close>
  changes the outcome of neither script. A module that holds only an \<open>async def\<close> has no
  Function Record, and a class that holds only an \<open>async def\<close> has no method record.
\<close>

theorem async_functions_ignored:
  "get_module_info (parser_giving (without_async stmts)) file_content
     = get_module_info (parser_giving stmts) file_content \<and>
   get_module_info_entities (parser_giving (without_async stmts)) file_content
     = get_module_info_entities (parser_giving stmts) file_content \<and>
   get_module_info (parser_giving [AsyncFunctionDef n b l]) file_content
     = Inr \<lparr>ModuleInfo.docstring = None, ModuleInfo.classes = [],
            ModuleInfo.functions = []\<rparr> \<and>
   get_module_info_entities (parser_giving [AsyncFunctionDef n b l]) file_content
     = Inr \<lparr>docs = AConst CNone, ModuleInfo_entities.classes = [],
            ModuleInfo_entities.functions = []\<rparr> \<and>
   extract_class_info (ClassDef cn [] [AsyncFunctionDef n b l] cl) file_content
     = Inr \<lparr>ClassInfo.name = cn, ClassInfo.docstring = None, bases = [], methods = []\<rparr> \<and>
   class_info_entities (ClassDef cn [] [AsyncFunctionDef n b l] cl) file_content
     = Inr \<lparr>ClassInfo.name = cn, ClassInfo.docstring = None, bases = [], methods = []\<rparr>"
proof (intro conjI)
  show "get_module_info (parser_giving (without_async stmts)) file_content
     = get_module_info (parser_giving stmts) file_content"
    by (rule get_module_info_without_async)
  show "get_module_info_entities (parser_giving (without_async stmts)) file_content
     = get_module_info_entities (parser_giving stmts) file_content"
    by (rule get_module_info_entities_without_async)
  show "get_module_info (parser_giving [AsyncFunctionDef n b l]) file_content
     = Inr \<lparr>ModuleInfo.docstring = None, ModuleInfo.classes = [],
            ModuleInfo.functions = []\<rparr>"
    by (simp add: get_module_info_def parser_giving_def)
  show "get_module_info_entities (parser_giving [AsyncFunctionDef n b l]) file_content
     = Inr \<lparr>docs = AConst CNone, ModuleInfo_entities.classes = [],
            ModuleInfo_entities.functions = []\<rparr>"
    by (simp add: get_module_info_entities_def parser_giving_def py_index_def)
  show "extract_class_info (ClassDef cn [] [AsyncFunctionDef n b l] cl) file_content
     = Inr \<lparr>ClassInfo.name = cn, ClassInfo.docstring = None, bases = [], methods = []\<rparr>"
    by (simp add: extract_class_info_def)
  show "class_info_entities (ClassDef cn [] [AsyncFunctionDef n b l] cl) file_content
     = Inr \<lparr>ClassInfo.name = cn, ClassInfo.docstring = None, bases = [], methods = []\<rparr>"
    by (simp add: class_info_entities_def)
qed

theorem async_functions_ignored_witness:
  "get_module_info (parser_giving async_stmts) async_source =
     Inr \<lparr>ModuleInfo.docstring = None, ModuleInfo.classes = [client_info],
          ModuleInfo.functions = []\<rparr> \<and>
   get_module_info_entities (parser_giving async_stmts) async_source =
     Inr \<lparr>docs = AConst CNone, ModuleInfo_entities.classes = [client_info],
          ModuleInfo_entities.functions = []\<rparr>"
  using async_functions_ignored [of async_stmts async_source] async_result by simp

section \<open>Sources on which the scripts raise\<close>

text \<open>
  Claim C3 asks that a class whose base is not a simple name does not make extraction
  raise. On the source \<open>class C(module.Base): pass\<close> both scripts raise
  \<open>AttributeError\<close>, since they read the attribute \<open>id\<close> of every base.
\<close>

theorem attribute_base_raises:
  "get_module_info (parser_giving attribute_base_stmts) attribute_base_source
     = Inl AttributeError \<and>
   get_module_info_entities (parser_giving attribute_base_stmts) attribute_base_source
     = Inl AttributeError"
  by code_simp

text \<open>
  Claim C4 asks that the empty source text gives a Module Record with no docstring, no
  function and no class. \<open>extract_code_entities.py\<close> raises \<open>IndexError\<close> on it, since it
  reads \<open>stmts[0]\<close>; \<open>extract_definitions.py\<close> returns that record.
\<close>

theorem empty_source_raises:
  "get_module_info_entities (parser_giving []) [] = Inl IndexError \<and>
   get_module_info (parser_giving []) [] =
     Inr \<lparr>ModuleInfo.docstring = None, ModuleInfo.classes = [], ModuleInfo.functions = []\<rparr>"
  by code_simp

text \<open>
  Claim C8 asks that extraction succeeds on every source text that parses. On a source
  with the class \<open>class Box(Generic[T]): pass\<close> both scripts raise \<open>AttributeError\<close> at the
  base that is a subscript, and on the source \<open>print(1)\<close> \<open>extract_code_entities.py\<close> raises
  \<open>AttributeError\<close> at \<open>stmts[0].value.value\<close>, since a call has no attribute \<open>value\<close>.
\<close>

theorem parseable_source_raises:
  "get_module_info (parser_giving generic_base_stmts) generic_base_source
     = Inl AttributeError \<and>
   get_module_info_entities (parser_giving generic_base_stmts) generic_base_source
     = Inl AttributeError \<and>
   get_module_info_entities (parser_giving call_first_stmts) call_first_source
     = Inl AttributeError"
  by code_simp

section \<open>The two scripts compared\<close>

lemma class_infos_agree:
  assumes "list_all (\<lambda>f. valid_span fc (loc f)) (filter is_FunctionDef (body c))"
  shows "class_info_entities c fc = extract_class_info c fc"
  using collect_functions_valid [OF assms]
  by (simp add: class_info_entities_def extract_class_info_def split: sum.splits)

lemma first_value_plain:
  assumes "plain_first_statement stmts"
  shows "\<exists>x. py_index stmts 0 = Inr x \<and>
           (case x of Expr v \<Rightarrow> expr_value v | _ \<Rightarrow> Inr (AConst CNone))
           = Inr (value_of_docstring (get_docstring stmts True))"
proof -
  from assms obtain x xs where s: "stmts = x # xs"
    by (cases stmts) (auto simp: plain_first_statement_def)
  have i: "py_index stmts 0 = Inr x" by (simp add: s py_index_def)
  have "(case x of Expr v \<Rightarrow> expr_value v | _ \<Rightarrow> Inr (AConst CNone))
           = Inr (value_of_docstring (get_docstring stmts True))"
  proof (cases "is_Expr x")
    case False
    then show ?thesis
      by (cases x) (simp_all add: s value_of_docstring_def)
  next
    case True
    then have "is_string_statement x"
      and c: "cleandoc (string_statement_value x) = string_statement_value x"
      using assms by (auto simp: plain_first_statement_def s)
    then obtain v where x: "x = Expr (Constant (CStr v))"
      by (cases x rule: is_string_statement.cases) auto
    show ?thesis using c by (simp add: s x value_of_docstring_def)
  qed
  then show ?thesis using i by blast
qed

lemma module_doc_results:
  "get_module_info_entities (parser_giving module_doc_stmts) module_doc_source =
     Inr \<lparr>docs = AConst (CStr module_doc_value), ModuleInfo_entities.classes = [],
          ModuleInfo_entities.functions = []\<rparr>"
  "get_module_info (parser_giving module_doc_stmts) module_doc_source =
     Inr \<lparr>ModuleInfo.docstring = Some ''Tools.\<newline>\<newline>Usage notes.'', ModuleInfo.classes = [],
          ModuleInfo.functions = []\<rparr>"
  by code_simp+

lemma example_comparable:
  "plain_first_statement example_stmts"
  "list_all (\<lambda>f. valid_span example_source (loc f)) (function_nodes example_stmts)"
  by code_simp+

text \<open>
  Claim C9 as the specification states it fails: the two scripts do not always give the
  same Module Record. For a module whose docstring runs over several indented lines,
  \<open>extract_code_entities.py\<close> stores the value of the string literal and
  \<open>extract_definitions.py\<close> stores the value cleaned by \<open>cleandoc\<close>.
\<close>

theorem scripts_differ_counterexample:
  "\<not> rel_sum (=) same_record
       (get_module_info_entities (parser_giving module_doc_stmts) module_doc_source)
       (get_module_info (parser_giving module_doc_stmts) module_doc_source)"
  by (simp add: module_doc_results same_record_def value_of_docstring_def module_doc_value_def)

text \<open>
  Claim C9, amended. The module docstring is the field \<open>docs\<close> of one record and the field
  \<open>docstring\<close> of the other. When the parser raises, both scripts raise the same
  exception. When it returns a module that has a first statement, this statement is not
  an expression statement or is a string literal that \<open>cleandoc\<close> leaves as it is, and
  every function node at top level or directly in a top-level class resolves to a valid
  span, then both scripts have the same outcome: the same exception, or records with the
  same docstring value, the same functions and the same classes.
\<close>

theorem scripts_agree:
  assumes "case parse file_content of
             Inl e \<Rightarrow> True
           | Inr (Module stmts) \<Rightarrow>
               plain_first_statement stmts \<and>
               list_all (\<lambda>f. valid_span file_content (loc f)) (function_nodes stmts)"
  shows "rel_sum (=) same_record
           (get_module_info_entities parse file_content)
           (get_module_info parse file_content)"
proof (cases "parse file_content")
  case (Inl e)
  then show ?thesis by (simp add: syntax_error_propagates)
next
  case (Inr tree)
  obtain stmts where tree: "tree = Module stmts" by (cases tree)
  have p: "parse file_content = Inr (Module stmts)" using Inr tree by simp
  have plain: "plain_first_statement stmts"
    and valid: "list_all (\<lambda>f. valid_span file_content (loc f)) (function_nodes stmts)"
    using assms p by simp_all
  have vf: "list_all (\<lambda>f. valid_span file_content (loc f)) (filter is_FunctionDef stmts)"
    using valid by (simp add: function_nodes_def)
  have vc: "\<And>c. c \<in> set (filter is_ClassDef stmts) \<Longrightarrow>
      list_all (\<lambda>f. valid_span file_content (loc f)) (filter is_FunctionDef (body c))"
    using valid by (auto simp: function_nodes_def list_all_iff)
  have cls: "collect (\<lambda>c. class_info_entities c file_content) (filter is_ClassDef stmts)
      = collect (\<lambda>c. extract_class_info c file_content) (filter is_ClassDef stmts)"
    by (rule collect_cong) (rule class_infos_agree, rule vc)
  obtain x where ix: "py_index stmts 0 = Inr x"
    and fv: "(case x of Expr v \<Rightarrow> expr_value v | _ \<Rightarrow> Inr (AConst CNone))
           = Inr (value_of_docstring (get_docstring stmts True))"
    using first_value_plain [OF plain] by blast
  show ?thesis
  proof (cases "collect (\<lambda>c. extract_class_info c file_content) (filter is_ClassDef stmts)")
    case (Inl e)
    then show ?thesis
      using collect_functions_valid [OF vf]
      by (simp add: get_module_info_entities_unfold get_module_info_def p ix fv cls)
  next
    case (Inr class_infos)
    then show ?thesis
      using collect_functions_valid [OF vf]
      by (simp add: get_module_info_entities_unfold get_module_info_def p ix fv cls
            same_record_def)
  qed
qed

theorem scripts_agree_witness:
  "plain_first_statement example_stmts \<and>
   list_all (\<lambda>f. valid_span example_source (loc f)) (function_nodes example_stmts) \<and>
   get_module_info_entities (parser_giving example_stmts) example_source
     = Inr example_record_entities \<and>
   get_module_info (parser_giving example_stmts) example_source = Inr example_record \<and>
   same_record example_record_entities example_record \<and>
   \<not> plain_first_statement nbsp_stmts"
proof -
  have h: "case parser_giving example_stmts example_source of
             Inl e \<Rightarrow> True
           | Inr (Module stmts) \<Rightarrow>
               plain_first_statement stmts \<and>
               list_all (\<lambda>f. valid_span example_source (loc f)) (function_nodes stmts)"
    by (simp add: parser_giving_def example_comparable)
  from scripts_agree
         [where parse = "parser_giving example_stmts" and file_content = example_source, OF h]
  show ?thesis
    by (simp add: example_definitions_result example_entities_result example_comparable
          nbsp_values(3))
qed

end
